theory Spec2Isabelle
  imports Main
begin

section \<open>Function declarations of the shading-language front end\<close>

text \<open>
  The development embeds \<^verbatim>\<open>SkSLFunctionDeclaration.cpp\<close>: the signature checks
  (\<^verbatim>\<open>check_modifiers\<close>, \<^verbatim>\<open>check_return_type\<close>, \<^verbatim>\<open>check_parameters\<close>,
  \<^verbatim>\<open>check_main_signature\<close>), the generic resolver (\<^verbatim>\<open>find_generic_index\<close>,
  \<^verbatim>\<open>type_generically_matches\<close>, \<^verbatim>\<open>parameters_match\<close>), the overload resolver
  (\<^verbatim>\<open>find_existing_declaration\<close>, \<^verbatim>\<open>FunctionDeclaration::Convert\<close>), the name mangler
  and \<^verbatim>\<open>determineFinalTypes\<close>. The error reporter is an explicit log, the symbol
  table an explicit value that \<open>Convert\<close> returns updated.
\<close>

subsection \<open>Data model\<close>

type_synonym Position = nat

text \<open>An entry of the error reporter: \<^verbatim>\<open>errors.error(pos, msg)\<close>.\<close>

type_synonym SkError = "Position \<times> string"

text \<open>
  The bits of \<^verbatim>\<open>Modifiers::fFlags\<close> that the file names; \<open>kOther_Flag n\<close> stands for
  any other bit of the mask. A mask is the set of its bits, so \<open>&\<close> is \<open>\<inter>\<close>,
  \<open>|\<close> is \<open>\<union>\<close> and \<open>fFlags == 0\<close> is \<open>= {}\<close>.
\<close>

datatype Flag =
    kHasSideEffects_Flag | kInline_Flag | kNoInline_Flag | kES3_Flag
  | kConst_Flag | kIn_Flag | kOut_Flag | kReadOnly_Flag | kWriteOnly_Flag
  | kOther_Flag nat

text \<open>
  \<^verbatim>\<open>Layout::fBuiltin\<close>. The three ids that the file assigns are constructors; any
  other id (and the default, no builtin) is \<open>OtherBuiltin\<close>.
\<close>

datatype BuiltinID =
    SK_MAIN_COORDS_BUILTIN | SK_INPUT_COLOR_BUILTIN | SK_DEST_COLOR_BUILTIN
  | OtherBuiltin int

record Layout =
  lFlags :: "nat set"
  fBuiltin :: BuiltinID

record Modifiers =
  fLayout :: Layout
  fFlags :: "Flag set"

datatype ProgramKind =
    kFragment | kVertex | kCompute | kGraphiteFragment | kGraphiteVertex
  | kRuntimeColorFilter | kRuntimeShader | kRuntimeBlender | kPrivateRuntimeShader
  | kMeshVertex | kMeshFragment | kGeneric

text \<open>
  The type system is a collaborator of this file: \<^verbatim>\<open>Type\<close> and its member functions
  are declared elsewhere. The operations that the file calls are the fields of a record
  over an arbitrary carrier \<open>'ty\<close>, together with the four builtin types of
  \<^verbatim>\<open>context.fTypes\<close> that the file compares against.
\<close>

record 'ty Types =
  matches :: "'ty \<Rightarrow> 'ty \<Rightarrow> bool"
  canCoerceTo :: "'ty \<Rightarrow> 'ty \<Rightarrow> bool \<Rightarrow> bool"
  isGeneric :: "'ty \<Rightarrow> bool"
  coercibleTypes :: "'ty \<Rightarrow> 'ty list"
  isArray :: "'ty \<Rightarrow> bool"
  isOrContainsArray :: "'ty \<Rightarrow> bool"
  componentType :: "'ty \<Rightarrow> 'ty"
  isOpaque :: "'ty \<Rightarrow> bool"
  isTexture :: "'ty \<Rightarrow> bool"
  isEffectChild :: "'ty \<Rightarrow> bool"
  isStruct :: "'ty \<Rightarrow> bool"
  typeName :: "'ty \<Rightarrow> string"
  displayName :: "'ty \<Rightarrow> string"
  abbreviatedName :: "'ty \<Rightarrow> string"
  fHalf4 :: 'ty
  fFloat4 :: 'ty
  fFloat2 :: 'ty
  fVoid :: 'ty

text \<open>
  \<^verbatim>\<open>Context\<close>: the type system, the program configuration
  (\<^verbatim>\<open>fConfig->fIsBuiltinCode\<close>, \<^verbatim>\<open>fConfig->fKind\<close>, \<^verbatim>\<open>fConfig->strictES2Mode()\<close>) and
  the table of intrinsic names that \<^verbatim>\<open>SKSL_INTRINSIC_LIST\<close> expands to.
\<close>

record 'ty Context =
  fTypes :: "'ty Types"
  fIsBuiltinCode :: bool
  fKind :: ProgramKind
  strictES2Mode :: bool
  kAllIntrinsics :: "string \<rightharpoonup> nat"

record 'ty Variable =
  fPosition :: Position
  modifiersPosition :: Position
  modifiers :: Modifiers
  varName :: string
  varType :: 'ty

datatype IntrinsicKind = kNotIntrinsic | kIntrinsic nat

record 'ty FunctionDeclaration =
  fPos :: Position
  fModifiers :: Modifiers
  fName :: string
  fParameters :: "'ty Variable list"
  fReturnType :: 'ty
  isBuiltin :: bool
  fIsMain :: bool
  fIntrinsicKind :: IntrinsicKind
  fDefinition :: bool

text \<open>
  What a name is bound to in a symbol table: a symbol that is no function, or the
  overload chain of the functions of that name, in the order in which
  \<^verbatim>\<open>nextOverload()\<close> walks it.
\<close>

datatype 'ty Symbol = NonFunction | Functions "'ty FunctionDeclaration list"

record 'ty SymbolTable =
  fSymbols :: "string \<rightharpoonup> 'ty Symbol"
  fOwnedSymbols :: "'ty Variable list"

subsection \<open>Collaborators that the file calls\<close>

text \<open>
  Modelled from the spec: \<^verbatim>\<open>Modifiers::checkPermitted\<close> is declared outside this file.
  The spec says that any flag outside the permitted set is an error; the model logs
  one diagnostic when a modifier flag or a layout flag is outside its permitted set, and
  none otherwise.
\<close>

definition checkPermitted :: "Modifiers \<Rightarrow> Position \<Rightarrow> Flag set \<Rightarrow> nat set \<Rightarrow> SkError list" where
  "checkPermitted m pos permittedModifierFlags permittedLayoutFlags =
     (if fFlags m \<subseteq> permittedModifierFlags \<and> lFlags (fLayout m) \<subseteq> permittedLayoutFlags
      then [] else [(pos, ''modifier is not permitted here'')])"

text \<open>
  Modelled from the spec: \<^verbatim>\<open>ProgramConfig::IsRuntimeEffect\<close> and
  \<^verbatim>\<open>ProgramConfig::IsFragment\<close> are declared outside this file. The runtime effects
  are the color filter, shader, private shader, blender and the two mesh kinds (which
  \<^verbatim>\<open>check_parameters\<close> then excludes by name); the fragment kinds are the fragment
  kind and its graphite variant.
\<close>

definition IsRuntimeEffect :: "ProgramKind \<Rightarrow> bool" where
  "IsRuntimeEffect kind =
     (kind = kRuntimeColorFilter \<or> kind = kRuntimeShader \<or> kind = kRuntimeBlender \<or>
      kind = kPrivateRuntimeShader \<or> kind = kMeshVertex \<or> kind = kMeshFragment)"

definition IsFragment :: "ProgramKind \<Rightarrow> bool" where
  "IsFragment kind = (kind = kFragment \<or> kind = kGraphiteFragment)"

subsection \<open>Signature validator\<close>

text \<open>The apostrophe of the diagnostics.\<close>

definition sq :: string where
  "sq = [CHR 0x27]"

definition identify_intrinsic :: "'ty Context \<Rightarrow> string \<Rightarrow> IntrinsicKind" where
  "identify_intrinsic context functionName =
     (let functionName' = (case functionName of c # cs \<Rightarrow> if c = CHR ''$'' then cs else functionName
                                               | [] \<Rightarrow> functionName)
      in case kAllIntrinsics context functionName' of
           Some kind \<Rightarrow> kIntrinsic kind
         | None \<Rightarrow> kNotIntrinsic)"

text \<open>Each check returns its verdict and the diagnostics that it logged.\<close>

definition check_modifiers :: "'ty Context \<Rightarrow> Position \<Rightarrow> Modifiers \<Rightarrow> bool \<times> SkError list" where
  "check_modifiers context pos m =
     (let permitted = {kHasSideEffects_Flag, kInline_Flag, kNoInline_Flag} \<union>
                      (if fIsBuiltinCode context then {kES3_Flag} else {});
          errs = checkPermitted m pos permitted {}
      in if kInline_Flag \<in> fFlags m \<and> kNoInline_Flag \<in> fFlags m
         then (False, errs @ [(pos, ''functions cannot be both '' @ sq @ ''inline'' @ sq @ '' and '' @ sq @ ''noinline'' @ sq)])
         else (True, errs))"

definition check_return_type :: "'ty Context \<Rightarrow> Position \<Rightarrow> 'ty \<Rightarrow> bool \<times> SkError list" where
  "check_return_type context pos returnType =
     (let T = fTypes context in
      if isArray T returnType
      then (False, [(pos, ''functions may not return type '' @ sq @ displayName T returnType @ sq)])
      else if strictES2Mode context \<and> isOrContainsArray T returnType
      then (False, [(pos, ''functions may not return structs containing arrays'')])
      else if \<not> fIsBuiltinCode context \<and> isOpaque T (componentType T returnType)
      then (False, [(pos, ''functions may not return opaque type '' @ sq @ displayName T returnType @ sq)])
      else (True, []))"

definition typeIsValidForColor :: "'ty Context \<Rightarrow> 'ty \<Rightarrow> bool" where
  "typeIsValidForColor context type =
     (matches (fTypes context) type (fHalf4 (fTypes context)) \<or>
      matches (fTypes context) type (fFloat4 (fTypes context)))"

text \<open>\<^verbatim>\<open>kBuiltinColorIDs\<close>: the first color parameter is the input color, the second the destination color.\<close>

definition kBuiltinColorIDs :: "BuiltinID list" where
  "kBuiltinColorIDs = [SK_INPUT_COLOR_BUILTIN, SK_DEST_COLOR_BUILTIN]"

text \<open>
  The body of the loop of \<^verbatim>\<open>check_parameters\<close> after the permission and the
  effect-child checks: the local copy \<open>m\<close> of the modifiers, the flag
  \<open>modifiersChanged\<close> and the counter \<open>builtinColorIndex\<close>. The result is the new
  \<open>m\<close>, \<open>modifiersChanged\<close> and the new counter.
\<close>

definition normalize_modifiers ::
  "'ty Context \<Rightarrow> bool \<Rightarrow> 'ty \<Rightarrow> Modifiers \<Rightarrow> nat \<Rightarrow> Modifiers \<times> bool \<times> nat" where
  "normalize_modifiers context isMain type m0 builtinColorIndex =
     (let (m1, changed1) =
            (if fFlags m0 \<inter> {kOut_Flag, kIn_Flag} = {kIn_Flag}
             then (m0\<lparr>fFlags := fFlags m0 - {kOut_Flag, kIn_Flag}\<rparr>, True)
             else (m0, False))
      in if isMain then
           (if IsRuntimeEffect (fKind context) \<and> fKind context \<noteq> kMeshFragment \<and>
               fKind context \<noteq> kMeshVertex
            then
              (if matches (fTypes context) type (fFloat2 (fTypes context))
               then (m1\<lparr>fLayout := (fLayout m1)\<lparr>fBuiltin := SK_MAIN_COORDS_BUILTIN\<rparr>\<rparr>, True,
                     builtinColorIndex)
               else if typeIsValidForColor context type \<and>
                       builtinColorIndex < length kBuiltinColorIDs
               then (m1\<lparr>fLayout := (fLayout m1)\<lparr>fBuiltin := kBuiltinColorIDs ! builtinColorIndex\<rparr>\<rparr>,
                     True, builtinColorIndex + 1)
               else (m1, changed1, builtinColorIndex))
            else if IsFragment (fKind context)
            then
              (if matches (fTypes context) type (fFloat2 (fTypes context))
               then (m1\<lparr>fLayout := (fLayout m1)\<lparr>fBuiltin := SK_MAIN_COORDS_BUILTIN\<rparr>\<rparr>, True,
                     builtinColorIndex)
               else (m1, changed1, builtinColorIndex))
            else (m1, changed1, builtinColorIndex))
         else (m1, changed1, builtinColorIndex))"

text \<open>
  The loop of \<^verbatim>\<open>check_parameters\<close> from a given value of \<open>builtinColorIndex\<close>. It
  returns the verdict, the diagnostics, the parameter list as the loop leaves it (the
  source updates the parameters in place, also on the path that returns false) and the
  final value of the counter.
\<close>

fun check_parameters_loop ::
  "'ty Context \<Rightarrow> bool \<Rightarrow> nat \<Rightarrow> 'ty Variable list \<Rightarrow>
     bool \<times> SkError list \<times> 'ty Variable list \<times> nat" where
  "check_parameters_loop context isMain builtinColorIndex [] = (True, [], [], builtinColorIndex)"
| "check_parameters_loop context isMain builtinColorIndex (param # rest) =
     (let T = fTypes context;
          type = varType param;
          permittedFlags = {kConst_Flag, kIn_Flag} \<union>
                           (if \<not> isOpaque T type then {kOut_Flag} else {}) \<union>
                           (if isTexture T type then {kReadOnly_Flag, kWriteOnly_Flag} else {});
          errs = checkPermitted (modifiers param) (modifiersPosition param) permittedFlags {}
      in if isEffectChild T type \<and> \<not> fIsBuiltinCode context
         then (False,
               errs @ [(fPosition param,
                        ''parameters of type '' @ sq @ displayName T type @ sq @ '' not allowed'')],
               param # rest, builtinColorIndex)
         else
           (case normalize_modifiers context isMain type (modifiers param) builtinColorIndex of
              (m, modifiersChanged, builtinColorIndex') \<Rightarrow>
                (case check_parameters_loop context isMain builtinColorIndex' rest of
                   (ok, errs', rest', n) \<Rightarrow>
                     (ok, errs @ errs',
                      (if modifiersChanged then param\<lparr>modifiers := m\<rparr> else param) # rest', n))))"

definition check_parameters ::
  "'ty Context \<Rightarrow> 'ty Variable list \<Rightarrow> bool \<Rightarrow> bool \<times> SkError list \<times> 'ty Variable list" where
  "check_parameters context parameters isMain =
     (case check_parameters_loop context isMain 0 parameters of
        (ok, errs, parameters', n) \<Rightarrow> (ok, errs, parameters'))"

subsection \<open>Entry-point convention checker\<close>

definition typeIsValidForAttributes :: "'ty Context \<Rightarrow> 'ty \<Rightarrow> bool" where
  "typeIsValidForAttributes context type =
     (isStruct (fTypes context) type \<and> typeName (fTypes context) type = ''Attributes'')"

definition typeIsValidForVaryings :: "'ty Context \<Rightarrow> 'ty \<Rightarrow> bool" where
  "typeIsValidForVaryings context type =
     (isStruct (fTypes context) type \<and> typeName (fTypes context) type = ''Varyings'')"

definition paramIsCoords :: "'ty Context \<Rightarrow> 'ty Variable list \<Rightarrow> nat \<Rightarrow> bool" where
  "paramIsCoords context parameters idx =
     (let p = parameters ! idx in
      matches (fTypes context) (varType p) (fFloat2 (fTypes context)) \<and>
      fFlags (modifiers p) = {} \<and>
      fBuiltin (fLayout (modifiers p)) = SK_MAIN_COORDS_BUILTIN)"

definition paramIsBuiltinColor :: "'ty Context \<Rightarrow> 'ty Variable list \<Rightarrow> nat \<Rightarrow> BuiltinID \<Rightarrow> bool" where
  "paramIsBuiltinColor context parameters idx builtinID =
     (let p = parameters ! idx in
      typeIsValidForColor context (varType p) \<and>
      fFlags (modifiers p) = {} \<and>
      fBuiltin (fLayout (modifiers p)) = builtinID)"

definition paramIsInAttributes :: "'ty Context \<Rightarrow> 'ty Variable list \<Rightarrow> nat \<Rightarrow> bool" where
  "paramIsInAttributes context parameters idx =
     (let p = parameters ! idx in
      typeIsValidForAttributes context (varType p) \<and> fFlags (modifiers p) = {})"

definition paramIsOutVaryings :: "'ty Context \<Rightarrow> 'ty Variable list \<Rightarrow> nat \<Rightarrow> bool" where
  "paramIsOutVaryings context parameters idx =
     (let p = parameters ! idx in
      typeIsValidForVaryings context (varType p) \<and> fFlags (modifiers p) = {kOut_Flag})"

definition paramIsInVaryings :: "'ty Context \<Rightarrow> 'ty Variable list \<Rightarrow> nat \<Rightarrow> bool" where
  "paramIsInVaryings context parameters idx =
     (let p = parameters ! idx in
      typeIsValidForVaryings context (varType p) \<and> fFlags (modifiers p) = {})"

definition paramIsOutColor :: "'ty Context \<Rightarrow> 'ty Variable list \<Rightarrow> nat \<Rightarrow> bool" where
  "paramIsOutColor context parameters idx =
     (let p = parameters ! idx in
      typeIsValidForColor context (varType p) \<and> fFlags (modifiers p) = {kOut_Flag})"

definition paramIsInputColor :: "'ty Context \<Rightarrow> 'ty Variable list \<Rightarrow> nat \<Rightarrow> bool" where
  "paramIsInputColor context parameters n =
     paramIsBuiltinColor context parameters n SK_INPUT_COLOR_BUILTIN"

definition paramIsDestColor :: "'ty Context \<Rightarrow> 'ty Variable list \<Rightarrow> nat \<Rightarrow> bool" where
  "paramIsDestColor context parameters n =
     paramIsBuiltinColor context parameters n SK_DEST_COLOR_BUILTIN"

text \<open>
  The index lambdas are only called behind the test of \<open>parameters.size()\<close>; the
  conjunctions below keep that test first, so an index out of range never decides.
\<close>

definition check_main_signature ::
  "'ty Context \<Rightarrow> Position \<Rightarrow> 'ty \<Rightarrow> 'ty Variable list \<Rightarrow> bool \<times> SkError list" where
  "check_main_signature context pos returnType parameters =
     (let T = fTypes context; n = length parameters in
      case fKind context of
        kRuntimeColorFilter \<Rightarrow>
          if \<not> typeIsValidForColor context returnType
          then (False, [(pos, sq @ ''main'' @ sq @ '' must return: '' @ sq @ ''vec4'' @ sq @
                              '', '' @ sq @ ''float4'' @ sq @ '', or '' @ sq @ ''half4'' @ sq)])
          else if \<not> (n = 1 \<and> paramIsInputColor context parameters 0)
          then (False, [(pos, sq @ ''main'' @ sq @ '' parameter must be '' @ sq @ ''vec4'' @ sq @
                              '', '' @ sq @ ''float4'' @ sq @ '', or '' @ sq @ ''half4'' @ sq)])
          else (True, [])
      | kRuntimeShader \<Rightarrow>
          if \<not> typeIsValidForColor context returnType
          then (False, [(pos, sq @ ''main'' @ sq @ '' must return: '' @ sq @ ''vec4'' @ sq @
                              '', '' @ sq @ ''float4'' @ sq @ '', or '' @ sq @ ''half4'' @ sq)])
          else if \<not> ((n = 1 \<and> paramIsCoords context parameters 0) \<or>
                       (n = 2 \<and> paramIsCoords context parameters 0 \<and>
                        paramIsInputColor context parameters 1))
          then (False, [(pos, sq @ ''main'' @ sq @
                              '' parameters must be (float2, (vec4|float4|half4)?)'')])
          else (True, [])
      | kPrivateRuntimeShader \<Rightarrow>
          if \<not> typeIsValidForColor context returnType
          then (False, [(pos, sq @ ''main'' @ sq @ '' must return: '' @ sq @ ''vec4'' @ sq @
                              '', '' @ sq @ ''float4'' @ sq @ '', or '' @ sq @ ''half4'' @ sq)])
          else if \<not> ((n = 1 \<and> paramIsCoords context parameters 0) \<or>
                       (n = 2 \<and> paramIsCoords context parameters 0 \<and>
                        paramIsInputColor context parameters 1))
          then (False, [(pos, sq @ ''main'' @ sq @
                              '' parameters must be (float2, (vec4|float4|half4)?)'')])
          else (True, [])
      | kRuntimeBlender \<Rightarrow>
          if \<not> typeIsValidForColor context returnType
          then (False, [(pos, sq @ ''main'' @ sq @ '' must return: '' @ sq @ ''vec4'' @ sq @
                              '', '' @ sq @ ''float4'' @ sq @ '', or '' @ sq @ ''half4'' @ sq)])
          else if \<not> (n = 2 \<and> paramIsInputColor context parameters 0 \<and>
                       paramIsDestColor context parameters 1)
          then (False, [(pos, sq @ ''main'' @ sq @
                              '' parameters must be (vec4|float4|half4, vec4|float4|half4)'')])
          else (True, [])
      | kMeshVertex \<Rightarrow>
          if \<not> matches T returnType (fFloat2 T)
          then (False, [(pos, sq @ ''main'' @ sq @ '' must return: '' @ sq @ ''vec2'' @ sq @
                              '' or '' @ sq @ ''float2'' @ sq)])
          else if \<not> (n = 2 \<and> paramIsInAttributes context parameters 0 \<and>
                       paramIsOutVaryings context parameters 1)
          then (False, [(pos, sq @ ''main'' @ sq @ '' parameters must be (Attributes, out Varyings'')])
          else (True, [])
      | kMeshFragment \<Rightarrow>
          if \<not> matches T returnType (fFloat2 T) \<and> \<not> matches T returnType (fVoid T)
          then (False, [(pos, sq @ ''main'' @ sq @ '' must return: '' @ sq @ ''vec2'' @ sq @
                              '', '' @ sq @ ''float2'' @ sq @ '', '' @ sq @ ''or'' @ sq @ '' '' @
                              sq @ ''void'' @ sq)])
          else if \<not> ((n = 1 \<and> paramIsInVaryings context parameters 0) \<or>
                       (n = 2 \<and> paramIsInVaryings context parameters 0 \<and>
                        paramIsOutColor context parameters 1))
          then (False, [(pos, sq @ ''main'' @ sq @
                              '' parameters must be (Varyings, (out (half4|float4))?)'')])
          else (True, [])
      | kGeneric \<Rightarrow> (True, [])
      | kFragment \<Rightarrow>
          if \<not> (n = 0 \<or> (n = 1 \<and> paramIsCoords context parameters 0))
          then (False, [(pos, ''shader '' @ sq @ ''main'' @ sq @ '' must be main() or main(float2)'')])
          else (True, [])
      | kGraphiteFragment \<Rightarrow>
          if \<not> (n = 0 \<or> (n = 1 \<and> paramIsCoords context parameters 0))
          then (False, [(pos, ''shader '' @ sq @ ''main'' @ sq @ '' must be main() or main(float2)'')])
          else (True, [])
      | _ \<Rightarrow>
          if \<not> matches T returnType (fVoid T)
          then (False, [(pos, sq @ ''main'' @ sq @ '' must return '' @ sq @ ''void'' @ sq)])
          else if n \<noteq> 0
          then (False, [(pos, ''shader '' @ sq @ ''main'' @ sq @ '' must have zero parameters'')])
          else (True, []))"

subsection \<open>Generic resolver\<close>

text \<open>
  The scan of \<^verbatim>\<open>find_generic_index\<close> over the rest of the family, \<open>index\<close> being
  the position of its first element; \<open>- 1\<close> means no match.
\<close>

fun find_generic_index_from :: "'ty Types \<Rightarrow> 'ty \<Rightarrow> 'ty list \<Rightarrow> bool \<Rightarrow> nat \<Rightarrow> int" where
  "find_generic_index_from T concreteType [] allowNarrowing index = - 1"
| "find_generic_index_from T concreteType (g # genericTypes) allowNarrowing index =
     (if canCoerceTo T concreteType g allowNarrowing then int index
      else find_generic_index_from T concreteType genericTypes allowNarrowing (index + 1))"

definition find_generic_index :: "'ty Types \<Rightarrow> 'ty \<Rightarrow> 'ty \<Rightarrow> bool \<Rightarrow> int" where
  "find_generic_index T concreteType genericType allowNarrowing =
     find_generic_index_from T concreteType (coercibleTypes T genericType) allowNarrowing 0"

definition type_generically_matches :: "'ty Types \<Rightarrow> 'ty \<Rightarrow> 'ty \<Rightarrow> bool" where
  "type_generically_matches T concreteType maybeGenericType =
     (if isGeneric T maybeGenericType
      then find_generic_index T concreteType maybeGenericType False \<noteq> - 1
      else matches T concreteType maybeGenericType)"

text \<open>
  The first loop of \<^verbatim>\<open>parameters_match\<close>, from a given \<open>genericIndex\<close>: \<open>None\<close> is
  its \<^verbatim>\<open>return false\<close>, \<open>Some\<close> the index with which it falls through. Both lists
  have the same length when the loop runs.
\<close>

fun consistent_generic_index ::
  "'ty Types \<Rightarrow> 'ty Variable list \<Rightarrow> 'ty Variable list \<Rightarrow> int \<Rightarrow> int option" where
  "consistent_generic_index T (param # params) (other # otherParams) genericIndex =
     (if isGeneric T (varType other)
      then (let genericIndexForThisParam =
                  find_generic_index T (varType param) (varType other) False
            in if genericIndexForThisParam = - 1 then None
               else if genericIndex \<noteq> - 1 \<and> genericIndex \<noteq> genericIndexForThisParam then None
               else consistent_generic_index T params otherParams genericIndexForThisParam)
      else consistent_generic_index T params otherParams genericIndex)"
| "consistent_generic_index T params otherParams genericIndex = Some genericIndex"

text \<open>
  The second loop of \<^verbatim>\<open>parameters_match\<close>. Its two \<^verbatim>\<open>SkASSERT\<close>s guard the read of
  \<^verbatim>\<open>coercibleTypes()[genericIndex]\<close>; the model answers \<open>False\<close> where they would
  fail, and \<open>parameter_check_in_range\<close> below shows that they never do after the
  first loop.
\<close>

fun parameter_check ::
  "'ty Types \<Rightarrow> 'ty Variable list \<Rightarrow> 'ty Variable list \<Rightarrow> int \<Rightarrow> bool" where
  "parameter_check T (param # params) (other # otherParams) genericIndex =
     (if isGeneric T (varType other)
      then (if genericIndex \<noteq> - 1 \<and> 0 \<le> genericIndex \<and>
               genericIndex < int (length (coercibleTypes T (varType other)))
            then matches T (varType param) (coercibleTypes T (varType other) ! nat genericIndex) \<and>
                 parameter_check T params otherParams genericIndex
            else False)
      else matches T (varType param) (varType other) \<and>
           parameter_check T params otherParams genericIndex)"
| "parameter_check T params otherParams genericIndex = True"

definition parameters_match :: "'ty Types \<Rightarrow> 'ty Variable list \<Rightarrow> 'ty Variable list \<Rightarrow> bool" where
  "parameters_match T params otherParams =
     (if length params \<noteq> length otherParams then False
      else case consistent_generic_index T params otherParams (- 1) of
             None \<Rightarrow> False
           | Some genericIndex \<Rightarrow> parameter_check T params otherParams genericIndex)"

subsection \<open>Overload resolver\<close>

text \<open>\<^verbatim>\<open>std::to_string\<close> on an unsigned number.\<close>

fun to_string :: "nat \<Rightarrow> string" where
  "to_string n =
     (if n < 10 then [char_of (48 + n)]
      else to_string (n div 10) @ [char_of (48 + n mod 10)])"

text \<open>The constructor \<^verbatim>\<open>FunctionDeclaration::FunctionDeclaration\<close>.\<close>

definition make_FunctionDeclaration ::
  "'ty Context \<Rightarrow> Position \<Rightarrow> Modifiers \<Rightarrow> string \<Rightarrow> 'ty Variable list \<Rightarrow> 'ty \<Rightarrow> bool \<Rightarrow>
     'ty FunctionDeclaration" where
  "make_FunctionDeclaration context pos m name parameters returnType builtin =
     \<lparr>fPos = pos, fModifiers = m, fName = name, fParameters = parameters,
      fReturnType = returnType, isBuiltin = builtin, fIsMain = (name = ''main''),
      fIntrinsicKind = (if builtin then identify_intrinsic context name else kNotIntrinsic),
      fDefinition = False\<rparr>"

fun description_parameters :: "'ty Types \<Rightarrow> string \<Rightarrow> 'ty Variable list \<Rightarrow> string" where
  "description_parameters T separator [] = []"
| "description_parameters T separator (p # ps) =
     separator @ displayName T (varType p) @ '' '' @ varName p @
     description_parameters T '', '' ps"

definition description :: "'ty Types \<Rightarrow> 'ty FunctionDeclaration \<Rightarrow> string" where
  "description T f =
     displayName T (fReturnType f) @ '' '' @ fName f @ ''('' @
     description_parameters T [] (fParameters f) @ '')''"

text \<open>
  The loop of \<^verbatim>\<open>find_existing_declaration\<close> over the modifiers of corresponding
  parameters: the first index \<open>i\<close> at which they differ, if any.
\<close>

fun first_modifier_mismatch ::
  "'ty Variable list \<Rightarrow> 'ty Variable list \<Rightarrow> nat \<Rightarrow> nat option" where
  "first_modifier_mismatch (param # params) (other # otherParams) i =
     (if modifiers param \<noteq> modifiers other then Some i
      else first_modifier_mismatch params otherParams (i + 1))"
| "first_modifier_mismatch params otherParams i = None"

text \<open>
  The walk of the overload chain. \<open>Inl\<close> is \<^verbatim>\<open>return false\<close> with the diagnostic
  that was logged; \<open>Inr\<close> is \<^verbatim>\<open>return true\<close> with \<open>*outExistingDecl\<close>.
\<close>

fun find_in_chain ::
  "'ty Context \<Rightarrow> Position \<Rightarrow> string \<Rightarrow> 'ty Variable list \<Rightarrow> Position \<Rightarrow> 'ty \<Rightarrow>
     'ty FunctionDeclaration list \<Rightarrow> SkError + 'ty FunctionDeclaration option" where
  "find_in_chain context pos name parameters returnTypePos returnType [] = Inr None"
| "find_in_chain context pos name parameters returnTypePos returnType (other # rest) =
     (if \<not> parameters_match (fTypes context) parameters (fParameters other)
      then find_in_chain context pos name parameters returnTypePos returnType rest
      else if \<not> type_generically_matches (fTypes context) returnType (fReturnType other)
      then (let invalidDecl = make_FunctionDeclaration context pos (fModifiers other) name
                                parameters returnType (fIsBuiltinCode context)
            in Inl (returnTypePos,
                    ''functions '' @ sq @ description (fTypes context) invalidDecl @ sq @
                    '' and '' @ sq @ description (fTypes context) other @ sq @
                    '' differ only in return type''))
      else (case first_modifier_mismatch parameters (fParameters other) 0 of
              Some i \<Rightarrow>
                Inl (fPosition (parameters ! i),
                     ''modifiers on parameter '' @ to_string (i + 1) @
                     '' differ between declaration and definition'')
            | None \<Rightarrow>
                if fDefinition other \<or> isBuiltin other
                then Inl (pos, ''duplicate definition of '' @ description (fTypes context) other)
                else Inr (Some other)))"

definition find_existing_declaration ::
  "'ty Context \<Rightarrow> 'ty SymbolTable \<Rightarrow> Position \<Rightarrow> string \<Rightarrow> 'ty Variable list \<Rightarrow> Position \<Rightarrow>
     'ty \<Rightarrow> SkError + 'ty FunctionDeclaration option" where
  "find_existing_declaration context symbols pos name parameters returnTypePos returnType =
     (case fSymbols symbols name of
        None \<Rightarrow> Inr None
      | Some NonFunction \<Rightarrow>
          Inl (pos, ''symbol '' @ sq @ name @ sq @ '' was already defined'')
      | Some (Functions chain) \<Rightarrow>
          find_in_chain context pos name parameters returnTypePos returnType chain)"

text \<open>
  Modelled from the spec: \<^verbatim>\<open>SymbolTable::takeOwnershipOfSymbol\<close> and
  \<^verbatim>\<open>SymbolTable::add\<close> are declared outside this file. Taking ownership stores the
  parameter with the table. Adding a function appends it to the overload chain of its
  name (a new chain when the name is unbound); a name bound to a symbol that is no
  function has no chain and is left as it is, which \<open>Convert\<close> never reaches.
\<close>

definition takeOwnershipOfSymbols :: "'ty SymbolTable \<Rightarrow> 'ty Variable list \<Rightarrow> 'ty SymbolTable" where
  "takeOwnershipOfSymbols symbols params =
     symbols\<lparr>fOwnedSymbols := fOwnedSymbols symbols @ params\<rparr>"

definition add :: "'ty SymbolTable \<Rightarrow> 'ty FunctionDeclaration \<Rightarrow> 'ty SymbolTable" where
  "add symbols decl =
     (case fSymbols symbols (fName decl) of
        None \<Rightarrow> symbols\<lparr>fSymbols := (fSymbols symbols)(fName decl \<mapsto> Functions [decl])\<rparr>
      | Some NonFunction \<Rightarrow> symbols
      | Some (Functions chain) \<Rightarrow>
          symbols\<lparr>fSymbols := (fSymbols symbols)(fName decl \<mapsto> Functions (chain @ [decl]))\<rparr>)"

text \<open>
  \<^verbatim>\<open>FunctionDeclaration::Convert\<close>. The result is the log of diagnostics, the
  returned declaration (\<open>None\<close> is \<^verbatim>\<open>nullptr\<close>) and the symbol table afterwards.
\<close>

definition Convert ::
  "'ty Context \<Rightarrow> 'ty SymbolTable \<Rightarrow> Position \<Rightarrow> Position \<Rightarrow> Modifiers \<Rightarrow> string \<Rightarrow>
     'ty Variable list \<Rightarrow> Position \<Rightarrow> 'ty \<Rightarrow>
     SkError list \<times> 'ty FunctionDeclaration option \<times> 'ty SymbolTable" where
  "Convert context symbols pos modifiersPos m name parameters returnTypePos returnType =
     (let isMain = (name = ''main'') in
      case check_modifiers context modifiersPos m of
        (False, e1) \<Rightarrow> (e1, None, symbols)
      | (True, e1) \<Rightarrow>
      (case check_return_type context returnTypePos returnType of
        (False, e2) \<Rightarrow> (e1 @ e2, None, symbols)
      | (True, e2) \<Rightarrow>
      (case check_parameters context parameters isMain of
        (False, e3, parameters') \<Rightarrow> (e1 @ e2 @ e3, None, symbols)
      | (True, e3, parameters') \<Rightarrow>
      (case (if isMain then check_main_signature context pos returnType parameters'
             else (True, [])) of
        (False, e4) \<Rightarrow> (e1 @ e2 @ e3 @ e4, None, symbols)
      | (True, e4) \<Rightarrow>
      (case find_existing_declaration context symbols pos name parameters' returnTypePos
              returnType of
        Inl e5 \<Rightarrow> (e1 @ e2 @ e3 @ e4 @ [e5], None, symbols)
      | Inr decl \<Rightarrow>
          (let symbols' = takeOwnershipOfSymbols symbols parameters' in
           case decl of
             Some existing \<Rightarrow> (e1 @ e2 @ e3 @ e4, Some existing, symbols')
           | None \<Rightarrow>
               (let result = make_FunctionDeclaration context pos m name parameters' returnType
                               (fIsBuiltinCode context)
                in (e1 @ e2 @ e3 @ e4, Some result, add symbols' result))))))))"

subsection \<open>Name mangler\<close>

definition mangledName :: "'ty Types \<Rightarrow> 'ty FunctionDeclaration \<Rightarrow> string" where
  "mangledName T f =
     (if (isBuiltin f \<and> \<not> fDefinition f) \<or> fIsMain f then fName f
      else
        (let (name, builtinMarker) =
               (case fName f of
                  c # cs \<Rightarrow> if c = CHR ''$'' then (cs, ''Q'') else (fName f, [])
                | [] \<Rightarrow> (fName f, []));
             splitter = (if name \<noteq> [] \<and> last name = CHR ''_'' then ''x_'' else ''_'')
         in name @ splitter @ builtinMarker @ abbreviatedName T (fReturnType f) @
            concat (map (\<lambda>p. abbreviatedName T (varType p)) (fParameters f))))"

subsection \<open>Final types at a call site\<close>

text \<open>
  What \<^verbatim>\<open>determineFinalTypes\<close> can do besides returning: fail its
  \<^verbatim>\<open>SkASSERT(arguments.size() == parameters.size())\<close>, or read
  \<^verbatim>\<open>coercibleTypes()[genericIndex]\<close> beyond the end of a family.
\<close>

datatype Fault = AssertionFailed | IndexOutOfRange

text \<open>
  The loop of \<^verbatim>\<open>determineFinalTypes\<close> over the arguments, given by their types, from
  a given \<open>genericIndex\<close>. \<open>Inr None\<close> is \<^verbatim>\<open>return false\<close>; \<open>Inr (Some (ts, g))\<close> is
  the fall-through with the types pushed to \<open>outParameterTypes\<close> and the final index.
\<close>

fun final_parameter_types ::
  "'ty Types \<Rightarrow> 'ty Variable list \<Rightarrow> 'ty list \<Rightarrow> int \<Rightarrow> Fault + ('ty list \<times> int) option" where
  "final_parameter_types T (p # parameters) (a # arguments) genericIndex =
     (if \<not> isGeneric T (varType p)
      then (case final_parameter_types T parameters arguments genericIndex of
              Inr (Some (ts, g)) \<Rightarrow> Inr (Some (varType p # ts, g))
            | r \<Rightarrow> r)
      else
        (let genericIndex' = (if genericIndex = - 1
                              then find_generic_index T a (varType p) True
                              else genericIndex)
         in if genericIndex' = - 1 then Inr None
            else if \<not> (0 \<le> genericIndex' \<and>
                       genericIndex' < int (length (coercibleTypes T (varType p))))
            then Inl IndexOutOfRange
            else (case final_parameter_types T parameters arguments genericIndex' of
                    Inr (Some (ts, g)) \<Rightarrow>
                      Inr (Some (coercibleTypes T (varType p) ! nat genericIndex' # ts, g))
                  | r \<Rightarrow> r)))"
| "final_parameter_types T parameters arguments genericIndex = Inr (Some ([], genericIndex))"

definition determineFinalTypes ::
  "'ty Types \<Rightarrow> 'ty FunctionDeclaration \<Rightarrow> 'ty list \<Rightarrow> Fault + ('ty list \<times> 'ty) option" where
  "determineFinalTypes T f arguments =
     (if length arguments \<noteq> length (fParameters f) then Inl AssertionFailed
      else case final_parameter_types T (fParameters f) arguments (- 1) of
             Inl fault \<Rightarrow> Inl fault
           | Inr None \<Rightarrow> Inr None
           | Inr (Some (outParameterTypes, genericIndex)) \<Rightarrow>
               if isGeneric T (fReturnType f)
               then (if genericIndex = - 1 then Inr None
                     else if \<not> (0 \<le> genericIndex \<and>
                                genericIndex < int (length (coercibleTypes T (fReturnType f))))
                     then Inl IndexOutOfRange
                     else Inr (Some (outParameterTypes,
                                     coercibleTypes T (fReturnType f) ! nat genericIndex)))
               else Inr (Some (outParameterTypes, fReturnType f)))"

subsection \<open>Sequences of declarations\<close>

text \<open>
  The arguments of one call of \<open>Convert\<close>. The configuration may differ from call
  to call (builtin modules are compiled before user code).
\<close>

record 'ty Candidate =
  cContext :: "'ty Context"
  cPos :: Position
  cModifiersPos :: Position
  cModifiers :: Modifiers
  cName :: string
  cParameters :: "'ty Variable list"
  cReturnTypePos :: Position
  cReturnType :: 'ty

definition ConvertCandidate ::
  "'ty SymbolTable \<Rightarrow> 'ty Candidate \<Rightarrow>
     SkError list \<times> 'ty FunctionDeclaration option \<times> 'ty SymbolTable" where
  "ConvertCandidate symbols c =
     Convert (cContext c) symbols (cPos c) (cModifiersPos c) (cModifiers c) (cName c)
       (cParameters c) (cReturnTypePos c) (cReturnType c)"

text \<open>
  What happens to one scope while a compilation unit is processed: a declaration is
  converted, or a body is bound to the \<open>i\<close>-th function of a name (the deferred
  \<^verbatim>\<open>setDefinition\<close>, which changes nothing but \<open>fDefinition\<close>).
\<close>

datatype 'ty Step = Declare "'ty Candidate" | AttachDefinition string nat

definition setDefinition :: "'ty SymbolTable \<Rightarrow> string \<Rightarrow> nat \<Rightarrow> 'ty SymbolTable" where
  "setDefinition symbols name i =
     (case fSymbols symbols name of
        Some (Functions chain) \<Rightarrow>
          if i < length chain
          then symbols\<lparr>fSymbols := (fSymbols symbols)(name \<mapsto>
                 Functions (chain[i := (chain ! i)\<lparr>fDefinition := True\<rparr>]))\<rparr>
          else symbols
      | _ \<Rightarrow> symbols)"

fun step :: "'ty SymbolTable \<Rightarrow> 'ty Step \<Rightarrow> 'ty SymbolTable" where
  "step symbols (Declare c) = snd (snd (ConvertCandidate symbols c))"
| "step symbols (AttachDefinition name i) = setDefinition symbols name i"

definition emptySymbolTable :: "'ty SymbolTable" where
  "emptySymbolTable = \<lparr>fSymbols = Map.empty, fOwnedSymbols = []\<rparr>"

definition run :: "'ty Step list \<Rightarrow> 'ty SymbolTable" where
  "run steps = foldl step emptySymbolTable steps"

text \<open>The overload chain of a name (empty when the name is bound to no function).\<close>

definition chainOf :: "'ty SymbolTable \<Rightarrow> string \<Rightarrow> 'ty FunctionDeclaration list" where
  "chainOf symbols name =
     (case fSymbols symbols name of Some (Functions chain) \<Rightarrow> chain | _ \<Rightarrow> [])"

subsection \<open>A small type universe\<close>

text \<open>
  The types of the spec's scenarios, on which the definitions are evaluated: the
  scalars and vectors \<open>float\<close>, \<open>float2\<close>, \<open>float3\<close>, \<open>float4\<close>, \<open>half4\<close>, \<open>int\<close>,
  \<open>void\<close>, and one generic type whose family is \<open>[float2, float3, float4]\<close>. Two types
  match when they are the same type; a type coerces to itself, \<open>half4\<close> widens to
  \<open>float4\<close>, and \<open>float4\<close> narrows to \<open>half4\<close> when narrowing is allowed.
\<close>

datatype SampleType = tFloat | tFloat2 | tFloat3 | tFloat4 | tHalf4 | tInt | tVoid | tGenType

fun sampleName :: "SampleType \<Rightarrow> string" where
  "sampleName tFloat = ''float''"
| "sampleName tFloat2 = ''float2''"
| "sampleName tFloat3 = ''float3''"
| "sampleName tFloat4 = ''float4''"
| "sampleName tHalf4 = ''half4''"
| "sampleName tInt = ''int''"
| "sampleName tVoid = ''void''"
| "sampleName tGenType = ''$genType''"

fun sampleAbbreviation :: "SampleType \<Rightarrow> string" where
  "sampleAbbreviation tFloat = ''f''"
| "sampleAbbreviation tFloat2 = ''f2''"
| "sampleAbbreviation tFloat3 = ''f3''"
| "sampleAbbreviation tFloat4 = ''f4''"
| "sampleAbbreviation tHalf4 = ''h4''"
| "sampleAbbreviation tInt = ''i''"
| "sampleAbbreviation tVoid = ''v''"
| "sampleAbbreviation tGenType = ''T''"

definition sampleTypes :: "SampleType Types" where
  "sampleTypes =
     \<lparr>matches = (\<lambda>a b. a = b),
      canCoerceTo = (\<lambda>a b allowNarrowing.
         a = b \<or> (a = tHalf4 \<and> b = tFloat4) \<or> (allowNarrowing \<and> a = tFloat4 \<and> b = tHalf4)),
      isGeneric = (\<lambda>t. t = tGenType),
      coercibleTypes = (\<lambda>t. if t = tGenType then [tFloat2, tFloat3, tFloat4] else []),
      isArray = (\<lambda>t. False),
      isOrContainsArray = (\<lambda>t. False),
      componentType = (\<lambda>t. if t = tFloat2 \<or> t = tFloat3 \<or> t = tFloat4 then tFloat else t),
      isOpaque = (\<lambda>t. False),
      isTexture = (\<lambda>t. False),
      isEffectChild = (\<lambda>t. False),
      isStruct = (\<lambda>t. False),
      typeName = sampleName,
      displayName = sampleName,
      abbreviatedName = sampleAbbreviation,
      fHalf4 = tHalf4, fFloat4 = tFloat4, fFloat2 = tFloat2, fVoid = tVoid\<rparr>"

definition sampleContext :: "ProgramKind \<Rightarrow> bool \<Rightarrow> SampleType Context" where
  "sampleContext kind builtinCode =
     \<lparr>fTypes = sampleTypes, fIsBuiltinCode = builtinCode, fKind = kind,
      strictES2Mode = False, kAllIntrinsics = Map.empty\<rparr>"

text \<open>Modifiers without flags, layout flags or builtin id (the id is \<open>- 1\<close> when unset).\<close>

definition noModifiers :: Modifiers where
  "noModifiers = \<lparr>fLayout = \<lparr>lFlags = {}, fBuiltin = OtherBuiltin (- 1)\<rparr>, fFlags = {}\<rparr>"

definition sampleVar :: "string \<Rightarrow> SampleType \<Rightarrow> SampleType Variable" where
  "sampleVar name type =
     \<lparr>fPosition = 0, modifiersPosition = 0, modifiers = noModifiers,
      varName = name, varType = type\<rparr>"

definition sampleCandidate ::
  "ProgramKind \<Rightarrow> bool \<Rightarrow> SampleType \<Rightarrow> string \<Rightarrow> SampleType Variable list \<Rightarrow>
     SampleType Candidate" where
  "sampleCandidate kind builtinCode returnType name parameters =
     \<lparr>cContext = sampleContext kind builtinCode, cPos = 0, cModifiersPos = 0,
      cModifiers = noModifiers, cName = name, cParameters = parameters,
      cReturnTypePos = 0, cReturnType = returnType\<rparr>"

subsection \<open>Auxiliary notions\<close>

text \<open>
  The test of \<^verbatim>\<open>check_parameters\<close> for a redundant \<open>in\<close>
  (\<^verbatim>\<open>kIn_Flag == (fFlags & (kOut_Flag | kIn_Flag))\<close>), and the modifiers with the flag
  stripped when the test holds.
\<close>

definition redundant_in :: "Modifiers \<Rightarrow> bool" where
  "redundant_in m = (fFlags m \<inter> {kOut_Flag, kIn_Flag} = {kIn_Flag})"

definition strip_in :: "Modifiers \<Rightarrow> Modifiers" where
  "strip_in m = (if redundant_in m then m\<lparr>fFlags := fFlags m - {kOut_Flag, kIn_Flag}\<rparr> else m)"

text \<open>
  The invariant of an overload chain, read in declaration order: the parameter list of a
  later function never matches, in the sense of \<open>parameters_match\<close>, the parameter
  list of an earlier one.
\<close>

fun chain_distinct :: "'ty Types \<Rightarrow> 'ty FunctionDeclaration list \<Rightarrow> bool" where
  "chain_distinct T [] = True"
| "chain_distinct T (d # ds) =
     ((\<forall>e \<in> set ds. \<not> parameters_match T (fParameters e) (fParameters d)) \<and>
      chain_distinct T ds)"

section \<open>Properties\<close>

subsection \<open>Generic resolution\<close>

text \<open>
  The scan from position \<open>k\<close> either finds nothing, and then no candidate accepts, or
  stops at the first candidate that accepts.
\<close>

lemma find_generic_index_from_cases:
  "find_generic_index_from T c fam n k = - 1 \<and> (\<forall>i<length fam. \<not> canCoerceTo T c (fam ! i) n) \<or>
   (\<exists>i<length fam. find_generic_index_from T c fam n k = int (k + i) \<and>
        canCoerceTo T c (fam ! i) n \<and> (\<forall>j<i. \<not> canCoerceTo T c (fam ! j) n))"
proof (induction fam arbitrary: k)
  case Nil
  show ?case by simp
next
  case (Cons g gs)
  show ?case
  proof (cases "canCoerceTo T c g n")
    case True
    then have "find_generic_index_from T c (g # gs) n k = int (k + 0) \<and>
        canCoerceTo T c ((g # gs) ! 0) n \<and> (\<forall>j<0. \<not> canCoerceTo T c ((g # gs) ! j) n)"
      by simp
    then show ?thesis by blast
  next
    case False
    from Cons.IH [of "k + 1"] show ?thesis
    proof
      assume a: "find_generic_index_from T c gs n (k + 1) = - 1 \<and>
                 (\<forall>i<length gs. \<not> canCoerceTo T c (gs ! i) n)"
      have "\<forall>i<length (g # gs). \<not> canCoerceTo T c ((g # gs) ! i) n"
        using a False by (auto simp: nth_Cons split: nat.splits)
      with a False show ?thesis by simp
    next
      assume "\<exists>i<length gs. find_generic_index_from T c gs n (k + 1) = int (k + 1 + i) \<and>
                 canCoerceTo T c (gs ! i) n \<and> (\<forall>j<i. \<not> canCoerceTo T c (gs ! j) n)"
      then obtain i where i: "i < length gs"
        "find_generic_index_from T c gs n (k + 1) = int (k + 1 + i)"
        "canCoerceTo T c (gs ! i) n" "\<forall>j<i. \<not> canCoerceTo T c (gs ! j) n"
        by blast
      have "\<forall>j<Suc i. \<not> canCoerceTo T c ((g # gs) ! j) n"
        using i(4) False by (auto simp: nth_Cons split: nat.splits)
      with i False have "Suc i < length (g # gs) \<and>
          find_generic_index_from T c (g # gs) n k = int (k + Suc i) \<and>
          canCoerceTo T c ((g # gs) ! Suc i) n \<and> (\<forall>j<Suc i. \<not> canCoerceTo T c ((g # gs) ! j) n)"
        by simp
      then show ?thesis by blast
    qed
  qed
qed

text \<open>
  Claim C3. \<open>find_generic_index\<close> returns the position of the first candidate of the
  family, in its declared order, to which the concrete type coerces under the requested
  narrowing setting, and returns \<open>- 1\<close> exactly when no candidate accepts. So a type
  that coerces to several candidates resolves to the earliest one.
\<close>

theorem find_generic_index_first_match:
  "(find_generic_index T concreteType genericType allowNarrowing = - 1 \<longleftrightarrow>
      (\<forall>i<length (coercibleTypes T genericType).
          \<not> canCoerceTo T concreteType (coercibleTypes T genericType ! i) allowNarrowing)) \<and>
   (\<forall>i. find_generic_index T concreteType genericType allowNarrowing = int i \<longleftrightarrow>
      i < length (coercibleTypes T genericType) \<and>
      canCoerceTo T concreteType (coercibleTypes T genericType ! i) allowNarrowing \<and>
      (\<forall>j<i. \<not> canCoerceTo T concreteType (coercibleTypes T genericType ! j) allowNarrowing))"
proof -
  define fam where "fam = coercibleTypes T genericType"
  define P where "P = (\<lambda>t. canCoerceTo T concreteType t allowNarrowing)"
  define r where "r = find_generic_index T concreteType genericType allowNarrowing"
  have r: "r = find_generic_index_from T concreteType fam allowNarrowing 0"
    by (simp add: find_generic_index_def r_def fam_def)
  have cases: "r = - 1 \<and> (\<forall>i<length fam. \<not> P (fam ! i)) \<or>
     (\<exists>k<length fam. r = int k \<and> P (fam ! k) \<and> (\<forall>j<k. \<not> P (fam ! j)))"
    using find_generic_index_from_cases [of T concreteType fam allowNarrowing 0]
    unfolding r P_def by simp
  have goal: "(r = - 1 \<longleftrightarrow> (\<forall>i<length fam. \<not> P (fam ! i))) \<and>
     (\<forall>i. r = int i \<longleftrightarrow> i < length fam \<and> P (fam ! i) \<and> (\<forall>j<i. \<not> P (fam ! j)))"
    using cases
  proof
    assume none: "r = - 1 \<and> (\<forall>i<length fam. \<not> P (fam ! i))"
    then have "r \<noteq> int i" for i by simp
    with none show ?thesis by blast
  next
    assume "\<exists>k<length fam. r = int k \<and> P (fam ! k) \<and> (\<forall>j<k. \<not> P (fam ! j))"
    then obtain k where k: "k < length fam" "r = int k" "P (fam ! k)" "\<forall>j<k. \<not> P (fam ! j)"
      by blast
    have neg: "r \<noteq> - 1" using k(2) by simp
    have uniq: "i = k" if "i < length fam" "P (fam ! i)" "\<forall>j<i. \<not> P (fam ! j)" for i
    proof (rule ccontr)
      assume "i \<noteq> k"
      then consider "i < k" | "k < i" by linarith
      then show False
      proof cases
        case 1 with k(4) that(2) show False by blast
      next
        case 2 with that(3) k(3) show False by blast
      qed
    qed
    have a: "r = - 1 \<longleftrightarrow> (\<forall>i<length fam. \<not> P (fam ! i))"
      using neg k(1) k(3) by blast
    have b: "r = int i \<longleftrightarrow> i < length fam \<and> P (fam ! i) \<and> (\<forall>j<i. \<not> P (fam ! j))" for i
    proof
      assume "r = int i"
      then have "i = k" using k(2) by simp
      then show "i < length fam \<and> P (fam ! i) \<and> (\<forall>j<i. \<not> P (fam ! j))" using k by simp
    next
      assume "i < length fam \<and> P (fam ! i) \<and> (\<forall>j<i. \<not> P (fam ! j))"
      then have "i = k" using uniq by blast
      then show "r = int i" using k(2) by simp
    qed
    from a b show ?thesis by blast
  qed
  then show ?thesis unfolding r_def fam_def P_def .
qed

theorem find_generic_index_first_match_witness:
  "find_generic_index sampleTypes tHalf4 tGenType True = int 2 \<and>
   2 < length (coercibleTypes sampleTypes tGenType) \<and>
   canCoerceTo sampleTypes tHalf4 (coercibleTypes sampleTypes tGenType ! 2) True \<and>
   find_generic_index sampleTypes tInt tGenType True = - 1"
  using find_generic_index_first_match [of sampleTypes tHalf4 tGenType True]
    find_generic_index_first_match [of sampleTypes tInt tGenType True]
  by (simp add: find_generic_index_def sampleTypes_def)

subsection \<open>Matching of parameter lists\<close>

lemma find_generic_index_range:
  assumes "find_generic_index T c g n \<noteq> - 1"
  shows "0 \<le> find_generic_index T c g n \<and>
         find_generic_index T c g n < int (length (coercibleTypes T g))"
  using find_generic_index_from_cases [of T c "coercibleTypes T g" n 0] assms
  unfolding find_generic_index_def by auto

lemma consistent_generic_index_sound:
  "length ps = length qs \<Longrightarrow> consistent_generic_index T ps qs g0 = Some g \<Longrightarrow>
   (\<forall>(p, q) \<in> set (zip ps qs). isGeneric T (varType q) \<longrightarrow>
        find_generic_index T (varType p) (varType q) False = g \<and> g \<noteq> - 1) \<and>
   (g0 \<noteq> - 1 \<longrightarrow> g = g0) \<and>
   ((\<forall>q \<in> set qs. \<not> isGeneric T (varType q)) \<longrightarrow> g = g0)"
proof (induction ps qs arbitrary: g0 rule: list_induct2)
  case Nil
  then show ?case by simp
next
  case (Cons p ps q qs)
  show ?case
  proof (cases "isGeneric T (varType q)")
    case False
    with Cons.prems have "consistent_generic_index T ps qs g0 = Some g" by simp
    from Cons.IH [OF this] False show ?thesis by simp
  next
    case True
    define gi where "gi = find_generic_index T (varType p) (varType q) False"
    from Cons.prems True have gi: "gi \<noteq> - 1" "g0 = - 1 \<or> g0 = gi"
      and rest: "consistent_generic_index T ps qs gi = Some g"
      by (auto simp: gi_def Let_def split: if_splits)
    from Cons.IH [OF rest] gi have "g = gi" by simp
    with Cons.IH [OF rest] gi True show ?thesis by (auto simp: gi_def)
  qed
qed

lemma consistent_generic_index_complete:
  "length ps = length qs \<Longrightarrow>
   (\<forall>(p, q) \<in> set (zip ps qs). isGeneric T (varType q) \<longrightarrow>
        find_generic_index T (varType p) (varType q) False = g \<and> g \<noteq> - 1) \<Longrightarrow>
   g0 = - 1 \<or> g0 = g \<Longrightarrow>
   \<exists>g'. consistent_generic_index T ps qs g0 = Some g' \<and>
        (g' = g \<or> (\<forall>q \<in> set qs. \<not> isGeneric T (varType q)))"
proof (induction ps qs arbitrary: g0 rule: list_induct2)
  case Nil
  then show ?case by simp
next
  case (Cons p ps q qs)
  have tl: "\<forall>(p, q) \<in> set (zip ps qs). isGeneric T (varType q) \<longrightarrow>
        find_generic_index T (varType p) (varType q) False = g \<and> g \<noteq> - 1"
    using Cons.prems(1) by simp
  show ?case
  proof (cases "isGeneric T (varType q)")
    case False
    from Cons.IH [OF tl Cons.prems(2)] False show ?thesis by simp
  next
    case True
    with Cons.prems(1) have hd: "find_generic_index T (varType p) (varType q) False = g" "g \<noteq> - 1"
      by simp_all
    from Cons.IH [OF tl, of g] obtain g' where
      g': "consistent_generic_index T ps qs g = Some g'"
          "g' = g \<or> (\<forall>q \<in> set qs. \<not> isGeneric T (varType q))"
      by blast
    from consistent_generic_index_sound [OF Cons.hyps g'(1)] hd(2) have "g' = g" by simp
    with g'(1) hd True Cons.prems(2) show ?thesis by (auto simp: Let_def)
  qed
qed

lemma parameter_check_iff:
  "length ps = length qs \<Longrightarrow>
   parameter_check T ps qs g \<longleftrightarrow>
   (\<forall>(p, q) \<in> set (zip ps qs).
      if isGeneric T (varType q)
      then g \<noteq> - 1 \<and> 0 \<le> g \<and> g < int (length (coercibleTypes T (varType q))) \<and>
           matches T (varType p) (coercibleTypes T (varType q) ! nat g)
      else matches T (varType p) (varType q))"
  by (induction ps qs rule: list_induct2) auto

lemma parameter_check_in_range:
  assumes "length ps = length qs" "consistent_generic_index T ps qs (- 1) = Some g"
    "(p, q) \<in> set (zip ps qs)" "isGeneric T (varType q)"
  shows "g \<noteq> - 1 \<and> 0 \<le> g \<and> g < int (length (coercibleTypes T (varType q)))"
proof -
  from consistent_generic_index_sound [OF assms(1,2)] assms(3,4)
  have "find_generic_index T (varType p) (varType q) False = g" "g \<noteq> - 1" by auto
  with find_generic_index_range [of T "varType p" "varType q" False] show ?thesis by simp
qed

lemma parameters_match_iff:
  "parameters_match T params otherParams \<longleftrightarrow>
     length params = length otherParams \<and>
     (\<exists>g. \<forall>(p, q) \<in> set (zip params otherParams).
        if isGeneric T (varType q)
        then find_generic_index T (varType p) (varType q) False = g \<and> g \<noteq> - 1 \<and>
             matches T (varType p) (coercibleTypes T (varType q) ! nat g)
        else matches T (varType p) (varType q))"
  (is "?L \<longleftrightarrow> ?len \<and> (\<exists>g. ?R g)")
proof
  assume L: ?L
  then have len: ?len by (auto simp: parameters_match_def split: if_splits)
  from L len obtain g where g: "consistent_generic_index T params otherParams (- 1) = Some g"
    and chk: "parameter_check T params otherParams g"
    by (auto simp: parameters_match_def split: option.splits)
  from consistent_generic_index_sound [OF len g]
  have s: "\<forall>(p, q) \<in> set (zip params otherParams). isGeneric T (varType q) \<longrightarrow>
        find_generic_index T (varType p) (varType q) False = g \<and> g \<noteq> - 1" by simp
  from chk have c: "\<forall>(p, q) \<in> set (zip params otherParams).
      if isGeneric T (varType q)
      then g \<noteq> - 1 \<and> 0 \<le> g \<and> g < int (length (coercibleTypes T (varType q))) \<and>
           matches T (varType p) (coercibleTypes T (varType q) ! nat g)
      else matches T (varType p) (varType q)"
    using parameter_check_iff [OF len] by blast
  have "?R g"
  proof (clarify)
    fix p q assume po: "(p, q) \<in> set (zip params otherParams)"
    show "if isGeneric T (varType q)
        then find_generic_index T (varType p) (varType q) False = g \<and> g \<noteq> - 1 \<and>
             matches T (varType p) (coercibleTypes T (varType q) ! nat g)
        else matches T (varType p) (varType q)"
      using s c po by (cases "isGeneric T (varType q)") auto
  qed
  with len show "?len \<and> (\<exists>g. ?R g)" by blast
next
  assume "?len \<and> (\<exists>g. ?R g)"
  then obtain g where len: ?len and R: "?R g" by blast
  have s: "\<forall>(p, q) \<in> set (zip params otherParams). isGeneric T (varType q) \<longrightarrow>
        find_generic_index T (varType p) (varType q) False = g \<and> g \<noteq> - 1"
    using R by (auto split: if_splits)
  from consistent_generic_index_complete [OF len s, of "- 1"] obtain g' where
    g': "consistent_generic_index T params otherParams (- 1) = Some g'"
        "g' = g \<or> (\<forall>q \<in> set otherParams. \<not> isGeneric T (varType q))"
    by auto
  have "parameter_check T params otherParams g'"
    unfolding parameter_check_iff [OF len]
  proof (clarify)
    fix p q assume po: "(p, q) \<in> set (zip params otherParams)"
    then have q: "q \<in> set otherParams" by (meson set_zip_rightD)
    show "if isGeneric T (varType q)
      then g' \<noteq> - 1 \<and> 0 \<le> g' \<and> g' < int (length (coercibleTypes T (varType q))) \<and>
           matches T (varType p) (coercibleTypes T (varType q) ! nat g')
      else matches T (varType p) (varType q)"
    proof (cases "isGeneric T (varType q)")
      case False
      with R po show ?thesis by auto
    next
      case True
      with g'(2) q have "g' = g" by blast
      moreover from R po True have "find_generic_index T (varType p) (varType q) False = g"
        "g \<noteq> - 1" "matches T (varType p) (coercibleTypes T (varType q) ! nat g)" by auto
      moreover note find_generic_index_range [of T "varType p" "varType q" False]
      ultimately show ?thesis using True by simp
    qed
  qed
  with len g'(1) show ?L by (simp add: parameters_match_def)
qed

text \<open>
  Claim C2. Parameter lists of different lengths never match. When the lists match,
  every generic parameter of the earlier declaration resolves, without narrowing, to one
  and the same family index; two generic parameters that resolve to different indices
  exclude the match. \<open>parameters_match\<close> only answers yes or no: it has no access to
  the error reporter. Altogether the lists match exactly when they have the same length
  and one index serves all generic positions, the candidate's type matching the family
  member at that index there and the declared type elsewhere.
\<close>

theorem parameters_match_generic_consistency:
  "(length params \<noteq> length otherParams \<longrightarrow> \<not> parameters_match T params otherParams) \<and>
   (parameters_match T params otherParams \<longrightarrow>
      (\<exists>g. g \<noteq> - 1 \<and>
           (\<forall>(p, q) \<in> set (zip params otherParams). isGeneric T (varType q) \<longrightarrow>
               find_generic_index T (varType p) (varType q) False = g))) \<and>
   (\<forall>p q p' q'. (p, q) \<in> set (zip params otherParams) \<and> (p', q') \<in> set (zip params otherParams) \<and>
        isGeneric T (varType q) \<and> isGeneric T (varType q') \<and>
        find_generic_index T (varType p) (varType q) False \<noteq>
        find_generic_index T (varType p') (varType q') False \<longrightarrow>
        \<not> parameters_match T params otherParams) \<and>
   (parameters_match T params otherParams \<longleftrightarrow>
      length params = length otherParams \<and>
      (\<exists>g. \<forall>(p, q) \<in> set (zip params otherParams).
         if isGeneric T (varType q)
         then find_generic_index T (varType p) (varType q) False = g \<and> g \<noteq> - 1 \<and>
              matches T (varType p) (coercibleTypes T (varType q) ! nat g)
         else matches T (varType p) (varType q)))"
proof (intro conjI)
  show "length params \<noteq> length otherParams \<longrightarrow> \<not> parameters_match T params otherParams"
    by (simp add: parameters_match_def)
next
  show "parameters_match T params otherParams \<longrightarrow>
      (\<exists>g. g \<noteq> - 1 \<and>
           (\<forall>(p, q) \<in> set (zip params otherParams). isGeneric T (varType q) \<longrightarrow>
               find_generic_index T (varType p) (varType q) False = g))"
  proof
    assume "parameters_match T params otherParams"
    then obtain g where g: "\<forall>(p, q) \<in> set (zip params otherParams).
         if isGeneric T (varType q)
         then find_generic_index T (varType p) (varType q) False = g \<and> g \<noteq> - 1 \<and>
              matches T (varType p) (coercibleTypes T (varType q) ! nat g)
         else matches T (varType p) (varType q)"
      unfolding parameters_match_iff by blast
    show "\<exists>g. g \<noteq> - 1 \<and>
           (\<forall>(p, q) \<in> set (zip params otherParams). isGeneric T (varType q) \<longrightarrow>
               find_generic_index T (varType p) (varType q) False = g)"
    proof (cases "\<exists>(p, q) \<in> set (zip params otherParams). isGeneric T (varType q)")
      case True
      with g have "g \<noteq> - 1" by (auto split: if_splits)
      moreover from g have "\<forall>(p, q) \<in> set (zip params otherParams). isGeneric T (varType q) \<longrightarrow>
               find_generic_index T (varType p) (varType q) False = g"
        by (auto split: if_splits)
      ultimately show ?thesis by blast
    next
      case False
      then have "(0::int) \<noteq> - 1 \<and>
           (\<forall>(p, q) \<in> set (zip params otherParams). isGeneric T (varType q) \<longrightarrow>
               find_generic_index T (varType p) (varType q) False = 0)"
        by auto
      then show ?thesis by blast
    qed
  qed
next
  show "\<forall>p q p' q'. (p, q) \<in> set (zip params otherParams) \<and> (p', q') \<in> set (zip params otherParams) \<and>
        isGeneric T (varType q) \<and> isGeneric T (varType q') \<and>
        find_generic_index T (varType p) (varType q) False \<noteq>
        find_generic_index T (varType p') (varType q') False \<longrightarrow>
        \<not> parameters_match T params otherParams"
  proof (intro allI impI notI)
    fix p q p' q'
    assume a: "(p, q) \<in> set (zip params otherParams) \<and> (p', q') \<in> set (zip params otherParams) \<and>
        isGeneric T (varType q) \<and> isGeneric T (varType q') \<and>
        find_generic_index T (varType p) (varType q) False \<noteq>
        find_generic_index T (varType p') (varType q') False"
    assume "parameters_match T params otherParams"
    then obtain g where g: "\<forall>(p, q) \<in> set (zip params otherParams).
         if isGeneric T (varType q)
         then find_generic_index T (varType p) (varType q) False = g \<and> g \<noteq> - 1 \<and>
              matches T (varType p) (coercibleTypes T (varType q) ! nat g)
         else matches T (varType p) (varType q)"
      unfolding parameters_match_iff by blast
    from g a have "find_generic_index T (varType p) (varType q) False = g"
      "find_generic_index T (varType p') (varType q') False = g" by auto
    with a show False by simp
  qed
next
  show "parameters_match T params otherParams \<longleftrightarrow>
      length params = length otherParams \<and>
      (\<exists>g. \<forall>(p, q) \<in> set (zip params otherParams).
         if isGeneric T (varType q)
         then find_generic_index T (varType p) (varType q) False = g \<and> g \<noteq> - 1 \<and>
              matches T (varType p) (coercibleTypes T (varType q) ! nat g)
         else matches T (varType p) (varType q))"
    by (rule parameters_match_iff)
qed

theorem parameters_match_generic_consistency_witness:
  "parameters_match sampleTypes [sampleVar ''x'' tFloat3, sampleVar ''y'' tFloat3]
     [sampleVar ''a'' tGenType, sampleVar ''b'' tGenType] \<and>
   \<not> parameters_match sampleTypes [sampleVar ''x'' tFloat3, sampleVar ''y'' tFloat2]
     [sampleVar ''a'' tGenType, sampleVar ''b'' tGenType] \<and>
   \<not> parameters_match sampleTypes [sampleVar ''x'' tFloat3]
     [sampleVar ''a'' tGenType, sampleVar ''b'' tGenType]"
  using parameters_match_generic_consistency [of "[sampleVar ''x'' tFloat3, sampleVar ''y'' tFloat3]"
      "[sampleVar ''a'' tGenType, sampleVar ''b'' tGenType]" sampleTypes]
    parameters_match_generic_consistency [of "[sampleVar ''x'' tFloat3, sampleVar ''y'' tFloat2]"
      "[sampleVar ''a'' tGenType, sampleVar ''b'' tGenType]" sampleTypes]
    parameters_match_generic_consistency [of "[sampleVar ''x'' tFloat3]"
      "[sampleVar ''a'' tGenType, sampleVar ''b'' tGenType]" sampleTypes]
  by (simp add: parameters_match_def find_generic_index_def sampleTypes_def sampleVar_def)

subsection \<open>Final types at a call site\<close>

lemma final_parameter_types_no_generic:
  "length ps = length as \<Longrightarrow> \<forall>p \<in> set ps. \<not> isGeneric T (varType p) \<Longrightarrow>
   final_parameter_types T ps as g0 = Inr (Some (map varType ps, g0))"
  by (induction ps as rule: list_induct2) auto

lemma final_parameter_types_fixed:
  "length ps = length as \<Longrightarrow> g0 \<noteq> - 1 \<Longrightarrow> 0 \<le> g0 \<Longrightarrow>
   \<forall>p \<in> set ps. isGeneric T (varType p) \<longrightarrow> g0 < int (length (coercibleTypes T (varType p))) \<Longrightarrow>
   final_parameter_types T ps as g0 =
     Inr (Some (map (\<lambda>p. if isGeneric T (varType p)
                          then coercibleTypes T (varType p) ! nat g0 else varType p) ps, g0))"
  by (induction ps as rule: list_induct2) auto

lemma final_parameter_types_index:
  "length ps = length as \<Longrightarrow> final_parameter_types T ps as g0 = Inr (Some (ts, g)) \<Longrightarrow>
   g = (if g0 \<noteq> - 1 then g0
        else case find (\<lambda>(p, a). isGeneric T (varType p)) (zip ps as) of
               None \<Rightarrow> - 1
             | Some (p, a) \<Rightarrow> find_generic_index T a (varType p) True) \<and>
   ((\<exists>p \<in> set ps. isGeneric T (varType p)) \<longrightarrow> g \<noteq> - 1)"
proof (induction ps as arbitrary: g0 ts rule: list_induct2)
  case Nil
  then show ?case by simp
next
  case (Cons p ps a as)
  show ?case
  proof (cases "isGeneric T (varType p)")
    case False
    with Cons.prems obtain ts' where
      "final_parameter_types T ps as g0 = Inr (Some (ts', g))"
      by (auto split: sum.splits option.splits)
    from Cons.IH [OF this] False show ?thesis by (auto split: if_splits)
  next
    case True
    define g1 where "g1 = (if g0 = - 1 then find_generic_index T a (varType p) True else g0)"
    from Cons.prems True have g1: "g1 \<noteq> - 1"
      by (auto simp: g1_def Let_def split: if_splits)
    from Cons.prems True g1 obtain ts' where
      "final_parameter_types T ps as g1 = Inr (Some (ts', g))"
      by (auto simp: g1_def Let_def split: if_splits sum.splits option.splits)
    from Cons.IH [OF this] g1 have "g = g1" by simp
    with g1 True show ?thesis by (auto simp: g1_def)
  qed
qed

lemma final_parameter_types_no_match:
  "length ps = length as \<Longrightarrow>
   find (\<lambda>(p, a). isGeneric T (varType p)) (zip ps as) = Some (p, a) \<Longrightarrow>
   find_generic_index T a (varType p) True = - 1 \<Longrightarrow>
   final_parameter_types T ps as (- 1) = Inr None"
  by (induction ps as rule: list_induct2) (auto split: if_splits)

lemma final_parameter_types_resolved:
  "length ps = length as \<Longrightarrow>
   find (\<lambda>(p, a). isGeneric T (varType p)) (zip ps as) = Some (p, a) \<Longrightarrow>
   g = find_generic_index T a (varType p) True \<Longrightarrow> g \<noteq> - 1 \<Longrightarrow>
   \<forall>p' \<in> set ps. isGeneric T (varType p') \<longrightarrow> g < int (length (coercibleTypes T (varType p'))) \<Longrightarrow>
   final_parameter_types T ps as (- 1) =
     Inr (Some (map (\<lambda>p. if isGeneric T (varType p)
                          then coercibleTypes T (varType p) ! nat g else varType p) ps, g))"
proof (induction ps as rule: list_induct2)
  case Nil
  then show ?case by simp
next
  case (Cons p0 ps a0 as)
  show ?case
  proof (cases "isGeneric T (varType p0)")
    case False
    with Cons show ?thesis by auto
  next
    case True
    with Cons.prems have eq: "p = p0" "a = a0" by auto
    have g0: "0 \<le> g"
      using find_generic_index_range [of T a "varType p" True] Cons.prems(2,3) by simp
    have "final_parameter_types T ps as g =
       Inr (Some (map (\<lambda>p. if isGeneric T (varType p)
                          then coercibleTypes T (varType p) ! nat g else varType p) ps, g))"
      using final_parameter_types_fixed [OF Cons.hyps Cons.prems(3) g0] Cons.prems(4) by simp
    with True eq Cons.prems g0 show ?thesis by (simp add: Let_def)
  qed
qed

text \<open>
  Claim C10. Let the return type of a declaration be generic and let the call pass as
  many arguments as the declaration has parameters (the function asserts this). If no
  parameter type is generic, \<open>determineFinalTypes\<close> returns false. Otherwise let \<open>g\<close>
  be the index to which the argument of the first generic parameter resolves, narrowing
  allowed: the function returns false when there is none; whenever it returns true, the
  return type is the member at \<open>g\<close> of the return type's family; and it does return
  true, with that return type, when \<open>g\<close> lies within the family of the return type
  and of every generic parameter.
\<close>

theorem determineFinalTypes_generic_return:
  assumes "isGeneric T (fReturnType f)"
    and "length arguments = length (fParameters f)"
  shows "((\<forall>p \<in> set (fParameters f). \<not> isGeneric T (varType p)) \<longrightarrow>
            determineFinalTypes T f arguments = Inr None) \<and>
         (\<forall>p a. find (\<lambda>(p, a). isGeneric T (varType p)) (zip (fParameters f) arguments) = Some (p, a) \<longrightarrow>
            (find_generic_index T a (varType p) True = - 1 \<longrightarrow>
               determineFinalTypes T f arguments = Inr None) \<and>
            (\<forall>pts rt. determineFinalTypes T f arguments = Inr (Some (pts, rt)) \<longrightarrow>
               find_generic_index T a (varType p) True \<noteq> - 1 \<and>
               find_generic_index T a (varType p) True <
                 int (length (coercibleTypes T (fReturnType f))) \<and>
               rt = coercibleTypes T (fReturnType f) !
                      nat (find_generic_index T a (varType p) True)) \<and>
            (find_generic_index T a (varType p) True \<noteq> - 1 \<and>
             find_generic_index T a (varType p) True <
               int (length (coercibleTypes T (fReturnType f))) \<and>
             (\<forall>p' \<in> set (fParameters f). isGeneric T (varType p') \<longrightarrow>
                find_generic_index T a (varType p) True <
                  int (length (coercibleTypes T (varType p')))) \<longrightarrow>
             (\<exists>pts. determineFinalTypes T f arguments =
                     Inr (Some (pts, coercibleTypes T (fReturnType f) !
                                       nat (find_generic_index T a (varType p) True))))))"
proof (intro conjI)
  show "(\<forall>p \<in> set (fParameters f). \<not> isGeneric T (varType p)) \<longrightarrow>
            determineFinalTypes T f arguments = Inr None"
    using final_parameter_types_no_generic [of "fParameters f" arguments T "- 1"] assms
    by (simp add: determineFinalTypes_def)
next
  show "\<forall>p a. find (\<lambda>(p, a). isGeneric T (varType p)) (zip (fParameters f) arguments) = Some (p, a) \<longrightarrow>
            (find_generic_index T a (varType p) True = - 1 \<longrightarrow>
               determineFinalTypes T f arguments = Inr None) \<and>
            (\<forall>pts rt. determineFinalTypes T f arguments = Inr (Some (pts, rt)) \<longrightarrow>
               find_generic_index T a (varType p) True \<noteq> - 1 \<and>
               find_generic_index T a (varType p) True <
                 int (length (coercibleTypes T (fReturnType f))) \<and>
               rt = coercibleTypes T (fReturnType f) !
                      nat (find_generic_index T a (varType p) True)) \<and>
            (find_generic_index T a (varType p) True \<noteq> - 1 \<and>
             find_generic_index T a (varType p) True <
               int (length (coercibleTypes T (fReturnType f))) \<and>
             (\<forall>p' \<in> set (fParameters f). isGeneric T (varType p') \<longrightarrow>
                find_generic_index T a (varType p) True <
                  int (length (coercibleTypes T (varType p')))) \<longrightarrow>
             (\<exists>pts. determineFinalTypes T f arguments =
                     Inr (Some (pts, coercibleTypes T (fReturnType f) !
                                       nat (find_generic_index T a (varType p) True)))))"
  proof (intro allI impI)
    fix p a
    assume fnd: "find (\<lambda>(p, a). isGeneric T (varType p)) (zip (fParameters f) arguments) = Some (p, a)"
    define g where "g = find_generic_index T a (varType p) True"
    have X: "g = - 1 \<longrightarrow> determineFinalTypes T f arguments = Inr None"
      using final_parameter_types_no_match [of "fParameters f" arguments T p a] assms fnd
      by (simp add: determineFinalTypes_def g_def)
    have Y: "g \<noteq> - 1 \<and> g < int (length (coercibleTypes T (fReturnType f))) \<and>
             rt = coercibleTypes T (fReturnType f) ! nat g"
      if res: "determineFinalTypes T f arguments = Inr (Some (pts, rt))" for pts rt
    proof -
      from res assms obtain g' where
        fpt: "final_parameter_types T (fParameters f) arguments (- 1) = Inr (Some (pts, g'))"
        and g': "g' \<noteq> - 1" "0 \<le> g'" "g' < int (length (coercibleTypes T (fReturnType f)))"
          "rt = coercibleTypes T (fReturnType f) ! nat g'"
        by (auto simp: determineFinalTypes_def split: sum.splits option.splits if_splits)
      from final_parameter_types_index [OF assms(2) [symmetric] fpt] fnd
      have "g' = g" by (simp add: g_def)
      with g' show ?thesis by simp
    qed
    have Z: "\<exists>pts. determineFinalTypes T f arguments =
                     Inr (Some (pts, coercibleTypes T (fReturnType f) ! nat g))"
      if h: "g \<noteq> - 1 \<and> g < int (length (coercibleTypes T (fReturnType f))) \<and>
             (\<forall>p' \<in> set (fParameters f). isGeneric T (varType p') \<longrightarrow>
                g < int (length (coercibleTypes T (varType p'))))"
    proof -
      have g0: "0 \<le> g"
        using find_generic_index_range [of T a "varType p" True] h by (simp add: g_def)
      have "final_parameter_types T (fParameters f) arguments (- 1) =
         Inr (Some (map (\<lambda>p. if isGeneric T (varType p)
                          then coercibleTypes T (varType p) ! nat g else varType p)
                  (fParameters f), g))"
        using final_parameter_types_resolved [OF assms(2) [symmetric] fnd g_def] h by simp
      with assms h g0 show ?thesis
        by (simp add: determineFinalTypes_def)
    qed
    from X Y Z show "(find_generic_index T a (varType p) True = - 1 \<longrightarrow>
               determineFinalTypes T f arguments = Inr None) \<and>
            (\<forall>pts rt. determineFinalTypes T f arguments = Inr (Some (pts, rt)) \<longrightarrow>
               find_generic_index T a (varType p) True \<noteq> - 1 \<and>
               find_generic_index T a (varType p) True <
                 int (length (coercibleTypes T (fReturnType f))) \<and>
               rt = coercibleTypes T (fReturnType f) !
                      nat (find_generic_index T a (varType p) True)) \<and>
            (find_generic_index T a (varType p) True \<noteq> - 1 \<and>
             find_generic_index T a (varType p) True <
               int (length (coercibleTypes T (fReturnType f))) \<and>
             (\<forall>p' \<in> set (fParameters f). isGeneric T (varType p') \<longrightarrow>
                find_generic_index T a (varType p) True <
                  int (length (coercibleTypes T (varType p')))) \<longrightarrow>
             (\<exists>pts. determineFinalTypes T f arguments =
                     Inr (Some (pts, coercibleTypes T (fReturnType f) !
                                       nat (find_generic_index T a (varType p) True)))))"
      unfolding g_def by blast
  qed
qed

theorem determineFinalTypes_generic_return_witness:
  "determineFinalTypes sampleTypes
     (make_FunctionDeclaration (sampleContext kGeneric True) 0 noModifiers ''$f''
        [sampleVar ''x'' tFloat] tGenType True) [tFloat] = Inr None \<and>
   determineFinalTypes sampleTypes
     (make_FunctionDeclaration (sampleContext kGeneric True) 0 noModifiers ''$f''
        [sampleVar ''x'' tFloat, sampleVar ''y'' tGenType] tGenType True) [tFloat, tFloat3] =
     Inr (Some ([tFloat, tFloat3], tFloat3)) \<and>
   determineFinalTypes sampleTypes
     (make_FunctionDeclaration (sampleContext kGeneric True) 0 noModifiers ''$f''
        [sampleVar ''x'' tFloat, sampleVar ''y'' tGenType] tGenType True) [tFloat, tInt] =
     Inr None"
  using determineFinalTypes_generic_return [of sampleTypes
      "make_FunctionDeclaration (sampleContext kGeneric True) 0 noModifiers ''$f''
        [sampleVar ''x'' tFloat] tGenType True" "[tFloat]"]
    determineFinalTypes_generic_return [of sampleTypes
      "make_FunctionDeclaration (sampleContext kGeneric True) 0 noModifiers ''$f''
        [sampleVar ''x'' tFloat, sampleVar ''y'' tGenType] tGenType True" "[tFloat, tFloat3]"]
    determineFinalTypes_generic_return [of sampleTypes
      "make_FunctionDeclaration (sampleContext kGeneric True) 0 noModifiers ''$f''
        [sampleVar ''x'' tFloat, sampleVar ''y'' tGenType] tGenType True" "[tFloat, tInt]"]
  by (simp add: determineFinalTypes_def make_FunctionDeclaration_def find_generic_index_def
      sampleTypes_def sampleVar_def)

subsection \<open>Rejection leaves the symbol table alone\<close>

lemma check_parameters_loop_false_logs:
  "check_parameters_loop context isMain k ps = (False, errs, ps', n) \<Longrightarrow> errs \<noteq> []"
proof (induction ps arbitrary: k errs ps' n)
  case Nil
  then show ?case by simp
next
  case (Cons p ps)
  show ?case
  proof (cases "isEffectChild (fTypes context) (varType p) \<and> \<not> fIsBuiltinCode context")
    case True
    with Cons.prems show ?thesis by (auto simp: Let_def)
  next
    case False
    obtain m ch k' where nm: "normalize_modifiers context isMain (varType p) (modifiers p) k = (m, ch, k')"
      by (cases "normalize_modifiers context isMain (varType p) (modifiers p) k")
    obtain ok e r n' where rec: "check_parameters_loop context isMain k' ps = (ok, e, r, n')"
      by (cases "check_parameters_loop context isMain k' ps")
    from Cons.prems False nm rec have "ok = False" "errs = checkPermitted (modifiers p) (modifiersPosition p)
        ({kConst_Flag, kIn_Flag} \<union>
           (if \<not> isOpaque (fTypes context) (varType p) then {kOut_Flag} else {}) \<union>
           (if isTexture (fTypes context) (varType p) then {kReadOnly_Flag, kWriteOnly_Flag} else {})) {} @ e"
      by (simp_all add: Let_def)
    with Cons.IH [of k' e r n'] rec show ?thesis by simp
  qed
qed

lemma check_parameters_false_logs:
  "check_parameters context ps isMain = (False, errs, ps') \<Longrightarrow> errs \<noteq> []"
  by (auto simp: check_parameters_def split: prod.splits dest: check_parameters_loop_false_logs)

lemma check_modifiers_false_logs:
  "check_modifiers context pos m = (False, errs) \<Longrightarrow> errs \<noteq> []"
  by (auto simp: check_modifiers_def Let_def split: if_splits)

lemma check_return_type_false_logs:
  "check_return_type context pos t = (False, errs) \<Longrightarrow> errs \<noteq> []"
  by (auto simp: check_return_type_def Let_def split: if_splits)


lemma check_main_signature_false_logs:
  "check_main_signature context pos t ps = (False, errs) \<Longrightarrow> errs \<noteq> []"
  by (cases "fKind context") (auto simp: check_main_signature_def Let_def split: if_splits)

text \<open>
  Claim C9. Whenever \<open>Convert\<close> returns \<^verbatim>\<open>nullptr\<close>, whichever check failed, the
  symbol table is the one it was called with: no function is registered and no parameter
  of the candidate is taken over. A failure has also logged at least one diagnostic.
\<close>

theorem Convert_rejection_atomic:
  assumes "Convert context symbols pos modifiersPos m name parameters returnTypePos returnType =
             (errs, None, symbols')"
  shows "symbols' = symbols \<and> errs \<noteq> []"
proof -
  obtain ok1 e1 where c1: "check_modifiers context modifiersPos m = (ok1, e1)"
    by (cases "check_modifiers context modifiersPos m")
  obtain ok2 e2 where c2: "check_return_type context returnTypePos returnType = (ok2, e2)"
    by (cases "check_return_type context returnTypePos returnType")
  obtain ok3 e3 ps where c3: "check_parameters context parameters (name = ''main'') = (ok3, e3, ps)"
    by (cases "check_parameters context parameters (name = ''main'')")
  obtain ok4 e4 where c4: "(if name = ''main'' then check_main_signature context pos returnType ps
             else (True, [])) = (ok4, e4)"
    by (cases "if name = ''main'' then check_main_signature context pos returnType ps
             else (True, [])")
  show ?thesis
  proof (cases ok1)
    case False
    with assms c1 check_modifiers_false_logs [of "context" modifiersPos m e1] show ?thesis
      by (auto simp: Convert_def)
  next
    case ok1: True
    show ?thesis
    proof (cases ok2)
      case False
      with assms c1 c2 ok1 check_return_type_false_logs [of "context" returnTypePos returnType e2]
      show ?thesis by (auto simp: Convert_def)
    next
      case ok2: True
      show ?thesis
      proof (cases ok3)
        case False
        with assms c1 c2 c3 ok1 ok2 check_parameters_false_logs [of "context" parameters _ e3 ps]
        show ?thesis by (auto simp: Convert_def)
      next
        case ok3: True
        show ?thesis
        proof (cases ok4)
          case False
          with c4 have "e4 \<noteq> []"
            using check_main_signature_false_logs [of "context" pos returnType ps e4]
            by (auto split: if_splits)
          with False assms c1 c2 c3 c4 ok1 ok2 ok3 show ?thesis
            by (auto simp: Convert_def)
        next
          case ok4: True
          from assms c1 c2 c3 c4 ok1 ok2 ok3 ok4 show ?thesis
            by (auto simp: Convert_def Let_def split: sum.splits option.splits)
        qed
      qed
    qed
  qed
qed

theorem Convert_rejection_atomic_witness:
  "Convert (sampleContext kRuntimeBlender False) emptySymbolTable 0 0 noModifiers ''main''
     [sampleVar ''src'' tHalf4] 0 tHalf4 =
     ([(0, sq @ ''main'' @ sq @ '' parameters must be (vec4|float4|half4, vec4|float4|half4)'')],
      None, emptySymbolTable)"
  using Convert_rejection_atomic [of "sampleContext kRuntimeBlender False" emptySymbolTable 0 0
      noModifiers "''main''" "[sampleVar ''src'' tHalf4]" 0 tHalf4]
  by (simp add: Convert_def check_modifiers_def check_return_type_def check_parameters_def
      check_main_signature_def checkPermitted_def normalize_modifiers_def IsRuntimeEffect_def
      typeIsValidForColor_def paramIsInputColor_def paramIsDestColor_def paramIsBuiltinColor_def
      kBuiltinColorIDs_def sampleContext_def sampleTypes_def sampleVar_def noModifiers_def Let_def)

subsection \<open>The blender entry point\<close>

lemma normalize_modifiers_blender_color:
  assumes "fKind context = kRuntimeBlender"
    and "typeIsValidForColor context type"
    and "\<not> matches (fTypes context) type (fFloat2 (fTypes context))"
    and "fFlags m \<subseteq> {kIn_Flag}"
    and "k < 2"
  shows "normalize_modifiers context True type m k =
           (m\<lparr>fFlags := {}, fLayout := (fLayout m)\<lparr>fBuiltin := kBuiltinColorIDs ! k\<rparr>\<rparr>, True, k + 1)"
proof -
  from assms(4) consider "fFlags m = {}" | "fFlags m = {kIn_Flag}" by blast
  then show ?thesis
  proof cases
    case 1
    with assms show ?thesis
      by (simp add: normalize_modifiers_def IsRuntimeEffect_def kBuiltinColorIDs_def)
  next
    case 2
    with assms show ?thesis
      by (simp add: normalize_modifiers_def IsRuntimeEffect_def kBuiltinColorIDs_def)
  qed
qed

lemma check_parameters_loop_counter:
  "check_parameters_loop context isMain k ps = (ok, errs, ps', n) \<Longrightarrow>
   k \<le> length kBuiltinColorIDs \<Longrightarrow> n \<le> length kBuiltinColorIDs"
proof (induction ps arbitrary: k ok errs ps' n)
  case Nil
  then show ?case by simp
next
  case (Cons p ps)
  show ?case
  proof (cases "isEffectChild (fTypes context) (varType p) \<and> \<not> fIsBuiltinCode context")
    case True
    with Cons.prems show ?thesis by (auto simp: Let_def)
  next
    case False
    obtain m ch k' where nm: "normalize_modifiers context isMain (varType p) (modifiers p) k = (m, ch, k')"
      by (cases "normalize_modifiers context isMain (varType p) (modifiers p) k")
    obtain ok0 e r n' where rec: "check_parameters_loop context isMain k' ps = (ok0, e, r, n')"
      by (cases "check_parameters_loop context isMain k' ps")
    from nm Cons.prems(2) have "k' \<le> length kBuiltinColorIDs"
      by (auto simp: normalize_modifiers_def Let_def split: if_splits prod.splits)
    from Cons.IH [OF rec this] Cons.prems(1) False nm rec show ?thesis
      by (simp add: Let_def)
  qed
qed

text \<open>
  Claim C7. Under the blender kind, with a color return type: two parameters of a color
  type (\<open>half4\<close> or \<open>float4\<close>, not matching \<open>float2\<close>), with no flag but possibly
  \<open>in\<close>, pass \<open>check_parameters\<close>, come out tagged as input color and destination
  color in argument order, and pass \<open>check_main_signature\<close> without a diagnostic. A
  parameter list of any other length fails \<open>check_main_signature\<close> with the diagnostic
  that names the expected signature. The role counter of \<open>check_parameters\<close> never
  exceeds the two slots of \<open>kBuiltinColorIDs\<close>.
\<close>

theorem blender_main_signature:
  assumes "fKind context = kRuntimeBlender"
    and "typeIsValidForColor context returnType"
  shows "(typeIsValidForColor context (varType p0) \<and> typeIsValidForColor context (varType p1) \<and>
          \<not> matches (fTypes context) (varType p0) (fFloat2 (fTypes context)) \<and>
          \<not> matches (fTypes context) (varType p1) (fFloat2 (fTypes context)) \<and>
          fFlags (modifiers p0) \<subseteq> {kIn_Flag} \<and> fFlags (modifiers p1) \<subseteq> {kIn_Flag} \<and>
          (fIsBuiltinCode context \<or>
             \<not> isEffectChild (fTypes context) (varType p0) \<and>
             \<not> isEffectChild (fTypes context) (varType p1)) \<longrightarrow>
          (\<exists>errs q0 q1.
              check_parameters context [p0, p1] True = (True, errs, [q0, q1]) \<and>
              varType q0 = varType p0 \<and> varType q1 = varType p1 \<and>
              fBuiltin (fLayout (modifiers q0)) = SK_INPUT_COLOR_BUILTIN \<and>
              fBuiltin (fLayout (modifiers q1)) = SK_DEST_COLOR_BUILTIN \<and>
              check_main_signature context pos returnType [q0, q1] = (True, []))) \<and>
         (length ps \<noteq> 2 \<longrightarrow>
            check_main_signature context pos returnType ps =
              (False, [(pos, sq @ ''main'' @ sq @
                             '' parameters must be (vec4|float4|half4, vec4|float4|half4)'')])) \<and>
         (\<forall>ok errs ps' n. check_parameters_loop context True 0 ps = (ok, errs, ps', n) \<longrightarrow> n \<le> 2)"
proof (intro conjI)
  show "typeIsValidForColor context (varType p0) \<and> typeIsValidForColor context (varType p1) \<and>
          \<not> matches (fTypes context) (varType p0) (fFloat2 (fTypes context)) \<and>
          \<not> matches (fTypes context) (varType p1) (fFloat2 (fTypes context)) \<and>
          fFlags (modifiers p0) \<subseteq> {kIn_Flag} \<and> fFlags (modifiers p1) \<subseteq> {kIn_Flag} \<and>
          (fIsBuiltinCode context \<or>
             \<not> isEffectChild (fTypes context) (varType p0) \<and>
             \<not> isEffectChild (fTypes context) (varType p1)) \<longrightarrow>
          (\<exists>errs q0 q1.
              check_parameters context [p0, p1] True = (True, errs, [q0, q1]) \<and>
              varType q0 = varType p0 \<and> varType q1 = varType p1 \<and>
              fBuiltin (fLayout (modifiers q0)) = SK_INPUT_COLOR_BUILTIN \<and>
              fBuiltin (fLayout (modifiers q1)) = SK_DEST_COLOR_BUILTIN \<and>
              check_main_signature context pos returnType [q0, q1] = (True, []))"
  proof
    assume h: "typeIsValidForColor context (varType p0) \<and> typeIsValidForColor context (varType p1) \<and>
          \<not> matches (fTypes context) (varType p0) (fFloat2 (fTypes context)) \<and>
          \<not> matches (fTypes context) (varType p1) (fFloat2 (fTypes context)) \<and>
          fFlags (modifiers p0) \<subseteq> {kIn_Flag} \<and> fFlags (modifiers p1) \<subseteq> {kIn_Flag} \<and>
          (fIsBuiltinCode context \<or>
             \<not> isEffectChild (fTypes context) (varType p0) \<and>
             \<not> isEffectChild (fTypes context) (varType p1))"
    define q0 where "q0 = p0\<lparr>modifiers := (modifiers p0)\<lparr>fFlags := {},
       fLayout := (fLayout (modifiers p0))\<lparr>fBuiltin := SK_INPUT_COLOR_BUILTIN\<rparr>\<rparr>\<rparr>"
    define q1 where "q1 = p1\<lparr>modifiers := (modifiers p1)\<lparr>fFlags := {},
       fLayout := (fLayout (modifiers p1))\<lparr>fBuiltin := SK_DEST_COLOR_BUILTIN\<rparr>\<rparr>\<rparr>"
    have n0: "normalize_modifiers context True (varType p0) (modifiers p0) 0 =
                (modifiers q0, True, 1)"
      using normalize_modifiers_blender_color [OF assms(1), of "varType p0" "modifiers p0" 0] h
      by (simp add: q0_def kBuiltinColorIDs_def)
    have n1: "normalize_modifiers context True (varType p1) (modifiers p1) 1 =
                (modifiers q1, True, 2)"
      using normalize_modifiers_blender_color [OF assms(1), of "varType p1" "modifiers p1" 1] h
      by (simp add: q1_def kBuiltinColorIDs_def)
    have eff: "\<not> (isEffectChild (fTypes context) (varType p0) \<and> \<not> fIsBuiltinCode context)"
      "\<not> (isEffectChild (fTypes context) (varType p1) \<and> \<not> fIsBuiltinCode context)"
      using h by auto
    have loop0: "\<exists>e. check_parameters_loop context True 0 [p0, p1] = (True, e, [q0, q1], 2)"
      using eff n0 n1 by (simp add: Let_def q0_def q1_def)
    then obtain e0 where "check_parameters_loop context True 0 [p0, p1] = (True, e0, [q0, q1], 2)"
      by blast
    then have cp: "check_parameters context [p0, p1] True = (True, e0, [q0, q1])"
      by (simp add: check_parameters_def)
    have main: "check_main_signature context pos returnType [q0, q1] = (True, [])"
      using assms h
      by (simp add: check_main_signature_def paramIsInputColor_def paramIsDestColor_def
          paramIsBuiltinColor_def q0_def q1_def)
    from cp main show "\<exists>errs q0 q1.
              check_parameters context [p0, p1] True = (True, errs, [q0, q1]) \<and>
              varType q0 = varType p0 \<and> varType q1 = varType p1 \<and>
              fBuiltin (fLayout (modifiers q0)) = SK_INPUT_COLOR_BUILTIN \<and>
              fBuiltin (fLayout (modifiers q1)) = SK_DEST_COLOR_BUILTIN \<and>
              check_main_signature context pos returnType [q0, q1] = (True, [])"
      by (intro exI [of _ e0] exI [of _ q0] exI [of _ q1]) (simp add: q0_def q1_def)
  qed
next
  show "length ps \<noteq> 2 \<longrightarrow>
            check_main_signature context pos returnType ps =
              (False, [(pos, sq @ ''main'' @ sq @
                             '' parameters must be (vec4|float4|half4, vec4|float4|half4)'')])"
    using assms by (simp add: check_main_signature_def)
next
  show "\<forall>ok errs ps' n. check_parameters_loop context True 0 ps = (ok, errs, ps', n) \<longrightarrow> n \<le> 2"
    using check_parameters_loop_counter [of "context" True 0 ps]
    by (auto simp: kBuiltinColorIDs_def)
qed

theorem blender_main_signature_witness:
  "fst (snd (Convert (sampleContext kRuntimeBlender False) emptySymbolTable 0 0 noModifiers ''main''
     [sampleVar ''src'' tHalf4, sampleVar ''dst'' tHalf4] 0 tHalf4)) =
     Some (make_FunctionDeclaration (sampleContext kRuntimeBlender False) 0 noModifiers ''main''
       [(sampleVar ''src'' tHalf4)\<lparr>modifiers :=
           noModifiers\<lparr>fLayout := \<lparr>lFlags = {}, fBuiltin = SK_INPUT_COLOR_BUILTIN\<rparr>\<rparr>\<rparr>,
        (sampleVar ''dst'' tHalf4)\<lparr>modifiers :=
           noModifiers\<lparr>fLayout := \<lparr>lFlags = {}, fBuiltin = SK_DEST_COLOR_BUILTIN\<rparr>\<rparr>\<rparr>]
       tHalf4 False) \<and>
   check_main_signature (sampleContext kRuntimeBlender False) 0 tHalf4 [sampleVar ''src'' tHalf4] =
     (False, [(0, sq @ ''main'' @ sq @
                  '' parameters must be (vec4|float4|half4, vec4|float4|half4)'')])"
  using blender_main_signature [of "sampleContext kRuntimeBlender False" tHalf4
      "sampleVar ''src'' tHalf4" "sampleVar ''dst'' tHalf4" 0 "[sampleVar ''src'' tHalf4]"]
  by (simp add: Convert_def check_modifiers_def check_return_type_def check_parameters_def
      check_main_signature_def checkPermitted_def normalize_modifiers_def IsRuntimeEffect_def
      typeIsValidForColor_def paramIsInputColor_def paramIsDestColor_def paramIsBuiltinColor_def
      find_existing_declaration_def emptySymbolTable_def make_FunctionDeclaration_def
      kBuiltinColorIDs_def sampleContext_def sampleTypes_def sampleVar_def noModifiers_def Let_def)

subsection \<open>Validation run twice\<close>

lemma redundant_in_strip_in: "\<not> redundant_in (strip_in m)"
proof (cases "redundant_in m")
  case True
  then have "kIn_Flag \<notin> fFlags (strip_in m)" by (simp add: strip_in_def)
  then show ?thesis unfolding redundant_in_def by blast
next
  case False
  then show ?thesis by (simp add: strip_in_def)
qed

lemma redundant_in_layout: "redundant_in (m\<lparr>fLayout := l\<rparr>) = redundant_in m"
  by (simp add: redundant_in_def)

lemma strip_in_fixed: "\<not> redundant_in m \<Longrightarrow> strip_in m = m"
  by (simp add: strip_in_def)

lemma strip_in_permitted:
  "kIn_Flag \<in> permitted \<Longrightarrow> fFlags (strip_in m) \<subseteq> permitted \<longleftrightarrow> fFlags m \<subseteq> permitted"
proof (cases "redundant_in m")
  case False
  then show ?thesis by (simp add: strip_in_def)
next
  case True
  assume p: "kIn_Flag \<in> permitted"
  from True have a: "kOut_Flag \<notin> fFlags m" unfolding redundant_in_def by blast
  have "fFlags (strip_in m) = fFlags m - {kOut_Flag, kIn_Flag}" using True by (simp add: strip_in_def)
  with a p show ?thesis by blast
qed

lemma strip_in_layout: "fLayout (strip_in m) = fLayout m"
  by (simp add: strip_in_def)

lemma normalize_modifiers_cases:
  "normalize_modifiers context isMain type m k =
     (if isMain \<and> matches (fTypes context) type (fFloat2 (fTypes context)) \<and>
         ((IsRuntimeEffect (fKind context) \<and> fKind context \<noteq> kMeshFragment \<and>
           fKind context \<noteq> kMeshVertex) \<or> IsFragment (fKind context))
      then ((strip_in m)\<lparr>fLayout := (fLayout (strip_in m))\<lparr>fBuiltin := SK_MAIN_COORDS_BUILTIN\<rparr>\<rparr>,
            True, k)
      else if isMain \<and> (IsRuntimeEffect (fKind context) \<and> fKind context \<noteq> kMeshFragment \<and>
           fKind context \<noteq> kMeshVertex) \<and> typeIsValidForColor context type \<and>
           k < length kBuiltinColorIDs
      then ((strip_in m)\<lparr>fLayout := (fLayout (strip_in m))\<lparr>fBuiltin := kBuiltinColorIDs ! k\<rparr>\<rparr>,
            True, k + 1)
      else (strip_in m, redundant_in m, k))"
proof (cases "redundant_in m")
  case True
  then have "fFlags m \<inter> {kOut_Flag, kIn_Flag} = {kIn_Flag}" by (simp add: redundant_in_def)
  with True show ?thesis
    unfolding normalize_modifiers_def strip_in_def by (simp, blast?)
next
  case False
  then have "fFlags m \<inter> {kOut_Flag, kIn_Flag} \<noteq> {kIn_Flag}" by (simp add: redundant_in_def)
  with False show ?thesis
    unfolding normalize_modifiers_def strip_in_def by (simp, blast?)
qed


lemma normalize_modifiers_result:
  assumes "normalize_modifiers context isMain type m k = (m', ch, k')"
  shows "\<not> redundant_in m' \<and> fFlags m' = fFlags (strip_in m) \<and>
         lFlags (fLayout m') = lFlags (fLayout m) \<and> (\<not> ch \<longrightarrow> m' = m)"
proof -
  define C1 where "C1 \<longleftrightarrow> isMain \<and> matches (fTypes context) type (fFloat2 (fTypes context)) \<and>
         ((IsRuntimeEffect (fKind context) \<and> fKind context \<noteq> kMeshFragment \<and>
           fKind context \<noteq> kMeshVertex) \<or> IsFragment (fKind context))"
  define C2 where "C2 \<longleftrightarrow> isMain \<and> (IsRuntimeEffect (fKind context) \<and> fKind context \<noteq> kMeshFragment \<and>
           fKind context \<noteq> kMeshVertex) \<and> typeIsValidForColor context type \<and>
           k < length kBuiltinColorIDs"
  have eq: "(m', ch, k') =
     (if C1 then ((strip_in m)\<lparr>fLayout := (fLayout (strip_in m))\<lparr>fBuiltin := SK_MAIN_COORDS_BUILTIN\<rparr>\<rparr>,
            True, k)
      else if C2 then ((strip_in m)\<lparr>fLayout := (fLayout (strip_in m))\<lparr>fBuiltin := kBuiltinColorIDs ! k\<rparr>\<rparr>,
            True, k + 1)
      else (strip_in m, redundant_in m, k))"
    using assms unfolding normalize_modifiers_cases C1_def C2_def by simp
  show ?thesis
  proof (cases C1)
    case True
    with eq have "m' = (strip_in m)\<lparr>fLayout := (fLayout (strip_in m))\<lparr>fBuiltin := SK_MAIN_COORDS_BUILTIN\<rparr>\<rparr>" "ch"
      by simp_all
    then show ?thesis
      by (simp add: redundant_in_layout redundant_in_strip_in strip_in_layout)
  next
    case nC1: False
    show ?thesis
    proof (cases C2)
      case True
      with eq nC1 have "m' = (strip_in m)\<lparr>fLayout := (fLayout (strip_in m))\<lparr>fBuiltin := kBuiltinColorIDs ! k\<rparr>\<rparr>" "ch"
        by simp_all
      then show ?thesis
        by (simp add: redundant_in_layout redundant_in_strip_in strip_in_layout)
    next
      case False
      with eq nC1 have "m' = strip_in m" "ch = redundant_in m" by simp_all
      then show ?thesis
        by (simp add: redundant_in_strip_in strip_in_layout strip_in_fixed)
    qed
  qed
qed

lemma normalize_modifiers_idem:
  assumes "normalize_modifiers context isMain type m k = (m', ch, k')"
  shows "\<exists>ch2. normalize_modifiers context isMain type m' k = (m', ch2, k')"
proof -
  define C1 where "C1 \<longleftrightarrow> isMain \<and> matches (fTypes context) type (fFloat2 (fTypes context)) \<and>
         ((IsRuntimeEffect (fKind context) \<and> fKind context \<noteq> kMeshFragment \<and>
           fKind context \<noteq> kMeshVertex) \<or> IsFragment (fKind context))"
  define C2 where "C2 \<longleftrightarrow> isMain \<and> (IsRuntimeEffect (fKind context) \<and> fKind context \<noteq> kMeshFragment \<and>
           fKind context \<noteq> kMeshVertex) \<and> typeIsValidForColor context type \<and>
           k < length kBuiltinColorIDs"
  have eq: "(m', ch, k') =
     (if C1 then ((strip_in m)\<lparr>fLayout := (fLayout (strip_in m))\<lparr>fBuiltin := SK_MAIN_COORDS_BUILTIN\<rparr>\<rparr>,
            True, k)
      else if C2 then ((strip_in m)\<lparr>fLayout := (fLayout (strip_in m))\<lparr>fBuiltin := kBuiltinColorIDs ! k\<rparr>\<rparr>,
            True, k + 1)
      else (strip_in m, redundant_in m, k))"
    using assms unfolding normalize_modifiers_cases C1_def C2_def by simp
  have s: "strip_in m' = m'"
    using normalize_modifiers_result [OF assms] by (simp add: strip_in_fixed)
  have again: "normalize_modifiers context isMain type m' k =
     (if C1 then (m'\<lparr>fLayout := (fLayout m')\<lparr>fBuiltin := SK_MAIN_COORDS_BUILTIN\<rparr>\<rparr>, True, k)
      else if C2 then (m'\<lparr>fLayout := (fLayout m')\<lparr>fBuiltin := kBuiltinColorIDs ! k\<rparr>\<rparr>, True, k + 1)
      else (m', redundant_in m', k))"
    unfolding normalize_modifiers_cases [of "context" isMain type m' k] s C1_def C2_def by simp
  show ?thesis
  proof (cases C1)
    case True
    with eq have "m' = (strip_in m)\<lparr>fLayout := (fLayout (strip_in m))\<lparr>fBuiltin := SK_MAIN_COORDS_BUILTIN\<rparr>\<rparr>" "k' = k"
      by simp_all
    with True again show ?thesis by auto
  next
    case nC1: False
    show ?thesis
    proof (cases C2)
      case True
      with eq nC1 have "m' = (strip_in m)\<lparr>fLayout := (fLayout (strip_in m))\<lparr>fBuiltin := kBuiltinColorIDs ! k\<rparr>\<rparr>" "k' = k + 1"
        by simp_all
      with True nC1 again show ?thesis by auto
    next
      case False
      with eq nC1 have "k' = k" by simp
      with False nC1 again show ?thesis by auto
    qed
  qed
qed

lemma normalize_modifiers_permitted:
  assumes "normalize_modifiers context isMain type m k = (m', ch, k')" and "kIn_Flag \<in> permitted"
  shows "checkPermitted m' pos permitted {} = checkPermitted m pos permitted {}"
  using normalize_modifiers_result [OF assms(1)] strip_in_permitted [OF assms(2), of m]
  by (simp add: checkPermitted_def)


lemma check_parameters_loop_step:
  assumes "\<not> (isEffectChild (fTypes context) (varType p) \<and> \<not> fIsBuiltinCode context)"
    and "normalize_modifiers context isMain (varType p) (modifiers p) k = (m, ch, k')"
    and "check_parameters_loop context isMain k' ps = (ok, e, r, n)"
  shows "check_parameters_loop context isMain k (p # ps) =
           (ok,
            checkPermitted (modifiers p) (modifiersPosition p)
              ({kConst_Flag, kIn_Flag} \<union>
                 (if \<not> isOpaque (fTypes context) (varType p) then {kOut_Flag} else {}) \<union>
                 (if isTexture (fTypes context) (varType p) then {kReadOnly_Flag, kWriteOnly_Flag}
                  else {})) {} @ e,
            (if ch then p\<lparr>modifiers := m\<rparr> else p) # r, n)"
proof (cases "isEffectChild (fTypes context) (varType p)")
  case False
  with assms(2,3) show ?thesis by (simp add: Let_def)
next
  case True
  with assms(1) have "fIsBuiltinCode context" by simp
  with assms(2,3) show ?thesis by (simp add: Let_def)
qed

lemma check_parameters_loop_idem:
  "check_parameters_loop context isMain k ps = (ok, errs, ps', n) \<Longrightarrow>
   check_parameters_loop context isMain k ps' = (ok, errs, ps', n)"
proof (induction ps arbitrary: k ok errs ps' n)
  case Nil
  then show ?case by simp
next
  case (Cons p ps)
  show ?case
  proof (cases "isEffectChild (fTypes context) (varType p) \<and> \<not> fIsBuiltinCode context")
    case True
    with Cons.prems have "ps' = p # ps" by (simp add: Let_def)
    with Cons.prems show ?thesis by simp
  next
    case False
    obtain m ch k' where nm: "normalize_modifiers context isMain (varType p) (modifiers p) k = (m, ch, k')"
      by (cases "normalize_modifiers context isMain (varType p) (modifiers p) k")
    obtain ok0 e r n' where rec: "check_parameters_loop context isMain k' ps = (ok0, e, r, n')"
      by (cases "check_parameters_loop context isMain k' ps")
    define perm where "perm = {kConst_Flag, kIn_Flag} \<union>
                 (if \<not> isOpaque (fTypes context) (varType p) then {kOut_Flag} else {}) \<union>
                 (if isTexture (fTypes context) (varType p) then {kReadOnly_Flag, kWriteOnly_Flag}
                  else {})"
    define p' where "p' = (if ch then p\<lparr>modifiers := m\<rparr> else p)"
    have res: "ok = ok0" "errs = checkPermitted (modifiers p) (modifiersPosition p) perm {} @ e"
      "ps' = p' # r" "n = n'"
      using check_parameters_loop_step [OF False nm rec] Cons.prems
      by (simp_all add: perm_def p'_def)
    have mp': "modifiers p' = m"
      using normalize_modifiers_result [OF nm] by (simp add: p'_def)
    have same: "varType p' = varType p" "modifiersPosition p' = modifiersPosition p"
      by (simp_all add: p'_def)
    have inperm: "kIn_Flag \<in> perm" by (simp add: perm_def)
    have cp: "checkPermitted (modifiers p') (modifiersPosition p') perm {} =
              checkPermitted (modifiers p) (modifiersPosition p) perm {}"
      using normalize_modifiers_permitted [OF nm inperm] mp' same by simp
    from normalize_modifiers_idem [OF nm] obtain ch2 where
      nm2: "normalize_modifiers context isMain (varType p') (modifiers p') k = (m, ch2, k')"
      using mp' same by auto
    have eff: "\<not> (isEffectChild (fTypes context) (varType p') \<and> \<not> fIsBuiltinCode context)"
      using False same by simp
    have rec2: "check_parameters_loop context isMain k' r = (ok0, e, r, n')"
      by (rule Cons.IH [OF rec])
    have p'': "(if ch2 then p'\<lparr>modifiers := m\<rparr> else p') = p'"
      using mp' by (cases ch2) auto
    show ?thesis
      using check_parameters_loop_step [OF eff nm2 rec2] res cp p'' same
      by (simp add: perm_def)
  qed
qed

lemma check_parameters_loop_normal:
  "check_parameters_loop context isMain k ps = (True, errs, ps', n) \<Longrightarrow>
   \<forall>p' \<in> set ps'. \<not> redundant_in (modifiers p')"
proof (induction ps arbitrary: k errs ps' n)
  case Nil
  then show ?case by simp
next
  case (Cons p ps)
  show ?case
  proof (cases "isEffectChild (fTypes context) (varType p) \<and> \<not> fIsBuiltinCode context")
    case True
    with Cons.prems show ?thesis by (simp add: Let_def)
  next
    case False
    obtain m ch k' where nm: "normalize_modifiers context isMain (varType p) (modifiers p) k = (m, ch, k')"
      by (cases "normalize_modifiers context isMain (varType p) (modifiers p) k")
    obtain ok0 e r n' where rec: "check_parameters_loop context isMain k' ps = (ok0, e, r, n')"
      by (cases "check_parameters_loop context isMain k' ps")
    have res: "ok0 = True" "ps' = (if ch then p\<lparr>modifiers := m\<rparr> else p) # r"
      using check_parameters_loop_step [OF False nm rec] Cons.prems by simp_all
    have "\<not> redundant_in (modifiers (if ch then p\<lparr>modifiers := m\<rparr> else p))"
      using normalize_modifiers_result [OF nm] by auto
    moreover have "\<forall>p' \<in> set r. \<not> redundant_in (modifiers p')"
      using Cons.IH [of k' e r n'] rec res(1) by simp
    ultimately show ?thesis using res(2) by simp
  qed
qed


text \<open>
  Claim C8, as amended. Running \<open>check_parameters\<close> again on the parameters that it
  produced gives the same verdict, the same diagnostics and the same parameters: every
  flag set and every inferred role is unchanged. After a run that passed, no parameter
  carries a redundant \<open>in\<close> (\<open>in\<close> without \<open>out\<close>). \<open>check_modifiers\<close> and
  \<open>check_return_type\<close> read the modifiers and the return type, which the declaration
  stores as they are; so when the first run of the three checks logged nothing, the
  second run logs nothing either.
\<close>

theorem validation_idempotent:
  assumes "check_modifiers context modifiersPos m = (ok1, e1)"
    and "check_return_type context returnTypePos returnType = (ok2, e2)"
    and "check_parameters context parameters isMain = (ok3, e3, parameters')"
  shows "check_parameters context parameters' isMain = (ok3, e3, parameters') \<and>
         (ok3 \<longrightarrow> (\<forall>p \<in> set parameters'.
                    fFlags (modifiers p) \<inter> {kOut_Flag, kIn_Flag} \<noteq> {kIn_Flag})) \<and>
         (e1 @ e2 @ e3 = [] \<longrightarrow>
            snd (check_modifiers context modifiersPos m) = [] \<and>
            snd (check_return_type context returnTypePos returnType) = [] \<and>
            fst (snd (check_parameters context parameters' isMain)) = [])"
proof -
  obtain n where loop: "check_parameters_loop context isMain 0 parameters = (ok3, e3, parameters', n)"
    using assms(3) by (auto simp: check_parameters_def split: prod.splits)
  have again: "check_parameters context parameters' isMain = (ok3, e3, parameters')"
    using check_parameters_loop_idem [OF loop] by (simp add: check_parameters_def)
  have normal: "ok3 \<longrightarrow> (\<forall>p \<in> set parameters'.
                    fFlags (modifiers p) \<inter> {kOut_Flag, kIn_Flag} \<noteq> {kIn_Flag})"
  proof
    assume ok3
    with loop have "check_parameters_loop context isMain 0 parameters = (True, e3, parameters', n)"
      by simp
    from check_parameters_loop_normal [OF this]
    show "\<forall>p \<in> set parameters'. fFlags (modifiers p) \<inter> {kOut_Flag, kIn_Flag} \<noteq> {kIn_Flag}"
      by (simp add: redundant_in_def)
  qed
  from again normal assms(1,2) show ?thesis by simp
qed

theorem validation_idempotent_witness:
  "check_parameters (sampleContext kGeneric False)
     [(sampleVar ''x'' tFloat)\<lparr>modifiers := noModifiers\<lparr>fFlags := {kIn_Flag}\<rparr>\<rparr>] False =
     (True, [], [sampleVar ''x'' tFloat]) \<and>
   check_parameters (sampleContext kGeneric False) [sampleVar ''x'' tFloat] False =
     (True, [], [sampleVar ''x'' tFloat])"
  using validation_idempotent [of "sampleContext kGeneric False" 0 noModifiers True "[]" 0 tFloat
      True "[]" "[(sampleVar ''x'' tFloat)\<lparr>modifiers := noModifiers\<lparr>fFlags := {kIn_Flag}\<rparr>\<rparr>]"
      False True "[]" "[sampleVar ''x'' tFloat]"]
  by (simp add: check_parameters_def check_modifiers_def check_return_type_def checkPermitted_def
      normalize_modifiers_def sampleContext_def sampleTypes_def sampleVar_def noModifiers_def
      Let_def)

text \<open>
  Claim C8 as stated fails: a declaration can pass all three checks, and be registered by
  \<open>Convert\<close>, although a diagnostic was logged, because the verdict of
  \<^verbatim>\<open>checkPermitted\<close> is ignored. User code that puts the flag reserved for builtin
  code on \<open>float f()\<close> is such a declaration, and checking the stored declaration again
  logs the diagnostic again.
\<close>

theorem validation_rerun_counterexample:
  "fst (check_modifiers (sampleContext kGeneric False) 0 (noModifiers\<lparr>fFlags := {kES3_Flag}\<rparr>)) \<and>
   fst (check_return_type (sampleContext kGeneric False) 0 tFloat) \<and>
   fst (check_parameters (sampleContext kGeneric False) [] False) \<and>
   fst (snd (Convert (sampleContext kGeneric False) emptySymbolTable 0 0
               (noModifiers\<lparr>fFlags := {kES3_Flag}\<rparr>) ''f'' [] 0 tFloat)) =
     Some (make_FunctionDeclaration (sampleContext kGeneric False) 0
             (noModifiers\<lparr>fFlags := {kES3_Flag}\<rparr>) ''f'' [] tFloat False) \<and>
   snd (check_modifiers (sampleContext kGeneric False) 0
          (fModifiers (make_FunctionDeclaration (sampleContext kGeneric False) 0
             (noModifiers\<lparr>fFlags := {kES3_Flag}\<rparr>) ''f'' [] tFloat False))) =
     [(0, ''modifier is not permitted here'')]"
  by (simp add: Convert_def check_parameters_def check_modifiers_def check_return_type_def
      checkPermitted_def find_existing_declaration_def emptySymbolTable_def
      make_FunctionDeclaration_def sampleContext_def sampleTypes_def noModifiers_def Let_def)

subsection \<open>Name mangling\<close>

lemma mangledName_literal:
  "(isBuiltin f \<and> \<not> fDefinition f) \<or> fIsMain f \<Longrightarrow> mangledName T f = fName f"
  by (simp add: mangledName_def)

text \<open>The part of a mangled name that depends on the name of the function alone.\<close>

lemma mangledName_mangled:
  assumes "\<not> ((isBuiltin f \<and> \<not> fDefinition f) \<or> fIsMain f)"
  shows "\<exists>pre. length (fName f) < length pre \<and>
           (\<forall>g. fName g = fName f \<and> \<not> ((isBuiltin g \<and> \<not> fDefinition g) \<or> fIsMain g) \<longrightarrow>
              mangledName T g =
                pre @ concat (map (abbreviatedName T) (fReturnType g # map varType (fParameters g))))"
proof (cases "\<exists>cs. fName f = CHR ''$'' # cs")
  case True
  then obtain cs where cs: "fName f = CHR ''$'' # cs" by blast
  define pre where "pre = cs @ (if cs \<noteq> [] \<and> last cs = CHR ''_'' then ''x_'' else ''_'') @ ''Q''"
  have "length (fName f) < length pre" by (simp add: pre_def cs)
  moreover have "mangledName T g =
      pre @ concat (map (abbreviatedName T) (fReturnType g # map varType (fParameters g)))"
    if "fName g = fName f \<and> \<not> ((isBuiltin g \<and> \<not> fDefinition g) \<or> fIsMain g)" for g
    using that cs by (simp add: mangledName_def pre_def comp_def)
  ultimately show ?thesis by blast
next
  case False
  define pre where "pre = fName f @ (if fName f \<noteq> [] \<and> last (fName f) = CHR ''_'' then ''x_'' else ''_'')"
  have "length (fName f) < length pre" by (simp add: pre_def)
  moreover have "mangledName T g =
      pre @ concat (map (abbreviatedName T) (fReturnType g # map varType (fParameters g)))"
    if "fName g = fName f \<and> \<not> ((isBuiltin g \<and> \<not> fDefinition g) \<or> fIsMain g)" for g
  proof (cases "fName f")
    case Nil
    with that show ?thesis by (simp add: mangledName_def pre_def comp_def)
  next
    case (Cons c cs)
    with False have "c \<noteq> CHR ''$''" by simp
    with that Cons show ?thesis by (simp add: mangledName_def pre_def comp_def)
  qed
  ultimately show ?thesis by blast
qed


lemma sampleAbbreviation_head:
  "concat (map sampleAbbreviation zs) = c # r \<Longrightarrow>
   c \<noteq> CHR ''2'' \<and> c \<noteq> CHR ''3'' \<and> c \<noteq> CHR ''4''"
proof (cases zs)
  case Nil
  assume "concat (map sampleAbbreviation zs) = c # r"
  with Nil show ?thesis by simp
next
  case (Cons z zs')
  assume "concat (map sampleAbbreviation zs) = c # r"
  with Cons show ?thesis by (cases z) auto
qed

lemma sampleAbbreviation_decodable:
  "concat (map sampleAbbreviation xs) = concat (map sampleAbbreviation ys) \<Longrightarrow> xs = ys"
proof (induction xs arbitrary: ys)
  case Nil
  show ?case
  proof (cases ys)
    case Nil
    then show ?thesis by simp
  next
    case (Cons y ys')
    with Nil.prems show ?thesis by (cases y) auto
  qed
next
  case (Cons x xs)
  show ?case
  proof (cases ys)
    case Nil
    with Cons.prems show ?thesis by (cases x) auto
  next
    case ys: (Cons y ys')
    have hd1: "concat (map sampleAbbreviation xs) \<noteq> c # r"
      if "c = CHR ''2'' \<or> c = CHR ''3'' \<or> c = CHR ''4''" for c r
      using sampleAbbreviation_head [of xs c r] that by blast
    have hd2: "concat (map sampleAbbreviation ys') \<noteq> c # r"
      if "c = CHR ''2'' \<or> c = CHR ''3'' \<or> c = CHR ''4''" for c r
      using sampleAbbreviation_head [of ys' c r] that by blast
    from Cons.prems ys have eq: "sampleAbbreviation x @ concat (map sampleAbbreviation xs) =
        sampleAbbreviation y @ concat (map sampleAbbreviation ys')" by simp
    have "x = y \<and> concat (map sampleAbbreviation xs) = concat (map sampleAbbreviation ys')"
      using eq hd1 hd2 by (cases x; cases y) (simp_all, (metis)+)
    with Cons.IH [of ys'] ys show ?thesis by simp
  qed
qed

lemma sampleTypes_decodable:
  "inj (\<lambda>ts. concat (map (abbreviatedName sampleTypes) ts))"
  by (rule injI) (simp add: sampleTypes_def sampleAbbreviation_decodable)


text \<open>
  Claim C6, as amended. The mangled name depends only on the name, on whether the
  function is a builtin, has a definition and is the entry point, on the return type and
  on the parameter types in order. A builtin without definition and the entry point keep
  their name. Of two functions of one name, one that keeps its name and one that does not
  get different mangled names; and when neither keeps its name and the abbreviated type
  names can be told apart in a concatenation (\<^verbatim>\<open>Type::abbreviatedName\<close> is declared
  outside this file), different parameter types give different mangled names.
\<close>

theorem mangledName_properties:
  "(fName f = fName g \<and> isBuiltin f = isBuiltin g \<and> fDefinition f = fDefinition g \<and>
    fIsMain f = fIsMain g \<and> fReturnType f = fReturnType g \<and>
    map varType (fParameters f) = map varType (fParameters g) \<longrightarrow>
      mangledName T f = mangledName T g) \<and>
   ((isBuiltin f \<and> \<not> fDefinition f) \<or> fIsMain f \<longrightarrow> mangledName T f = fName f) \<and>
   (fName f = fName g \<and>
    ((isBuiltin f \<and> \<not> fDefinition f) \<or> fIsMain f) \<and>
    \<not> ((isBuiltin g \<and> \<not> fDefinition g) \<or> fIsMain g) \<longrightarrow>
      mangledName T f \<noteq> mangledName T g) \<and>
   (inj (\<lambda>ts. concat (map (abbreviatedName T) ts)) \<and>
    fName f = fName g \<and>
    \<not> ((isBuiltin f \<and> \<not> fDefinition f) \<or> fIsMain f) \<and>
    \<not> ((isBuiltin g \<and> \<not> fDefinition g) \<or> fIsMain g) \<and>
    map varType (fParameters f) \<noteq> map varType (fParameters g) \<longrightarrow>
      mangledName T f \<noteq> mangledName T g)"
proof (intro conjI impI)
  assume "fName f = fName g \<and> isBuiltin f = isBuiltin g \<and> fDefinition f = fDefinition g \<and>
    fIsMain f = fIsMain g \<and> fReturnType f = fReturnType g \<and>
    map varType (fParameters f) = map varType (fParameters g)"
  then have eq0: "fName f = fName g" "isBuiltin f = isBuiltin g" "fDefinition f = fDefinition g"
    "fIsMain f = fIsMain g" "fReturnType f = fReturnType g"
    and tys: "map varType (fParameters f) = map varType (fParameters g)"
    by simp_all
  have "map (abbreviatedName T) (map varType (fParameters f)) =
        map (abbreviatedName T) (map varType (fParameters g))"
    using tys by simp
  then have eq1: "map (\<lambda>p. abbreviatedName T (varType p)) (fParameters f) =
     map (\<lambda>p. abbreviatedName T (varType p)) (fParameters g)"
    by (simp add: comp_def)
  note eq = eq0 eq1
  show "mangledName T f = mangledName T g"
    unfolding mangledName_def eq ..
next
  assume "(isBuiltin f \<and> \<not> fDefinition f) \<or> fIsMain f"
  then show "mangledName T f = fName f" by (rule mangledName_literal)
next
  assume a: "fName f = fName g \<and>
    ((isBuiltin f \<and> \<not> fDefinition f) \<or> fIsMain f) \<and>
    \<not> ((isBuiltin g \<and> \<not> fDefinition g) \<or> fIsMain g)"
  then have lit: "mangledName T f = fName g" using mangledName_literal [of f T] by simp
  from a mangledName_mangled [of g T] obtain pre where
    pre: "length (fName g) < length pre"
      "mangledName T g =
         pre @ concat (map (abbreviatedName T) (fReturnType g # map varType (fParameters g)))"
    by blast
  then have "length (fName g) < length (mangledName T g)" by simp
  with lit show "mangledName T f \<noteq> mangledName T g" by auto
next
  assume a: "inj (\<lambda>ts. concat (map (abbreviatedName T) ts)) \<and>
    fName f = fName g \<and>
    \<not> ((isBuiltin f \<and> \<not> fDefinition f) \<or> fIsMain f) \<and>
    \<not> ((isBuiltin g \<and> \<not> fDefinition g) \<or> fIsMain g) \<and>
    map varType (fParameters f) \<noteq> map varType (fParameters g)"
  from a mangledName_mangled [of f T] obtain pre where
    pre: "\<forall>h. fName h = fName f \<and> \<not> ((isBuiltin h \<and> \<not> fDefinition h) \<or> fIsMain h) \<longrightarrow>
              mangledName T h =
                pre @ concat (map (abbreviatedName T) (fReturnType h # map varType (fParameters h)))"
    by blast
  from pre a have mf: "mangledName T f =
      pre @ concat (map (abbreviatedName T) (fReturnType f # map varType (fParameters f)))"
    by blast
  from pre a have mg: "mangledName T g =
      pre @ concat (map (abbreviatedName T) (fReturnType g # map varType (fParameters g)))"
    by metis
  show "mangledName T f \<noteq> mangledName T g"
  proof
    assume "mangledName T f = mangledName T g"
    with mf mg have "concat (map (abbreviatedName T) (fReturnType f # map varType (fParameters f))) =
       concat (map (abbreviatedName T) (fReturnType g # map varType (fParameters g)))"
      by simp
    with a have "fReturnType f # map varType (fParameters f) =
       fReturnType g # map varType (fParameters g)"
      by (meson injD)
    with a show False by simp
  qed
qed

theorem mangledName_properties_witness:
  "mangledName sampleTypes
     (make_FunctionDeclaration (sampleContext kGeneric False) 0 noModifiers ''foo''
        [sampleVar ''x'' tFloat3] tFloat False) = ''foo_ff3'' \<and>
   mangledName sampleTypes
     (make_FunctionDeclaration (sampleContext kGeneric False) 0 noModifiers ''foo''
        [sampleVar ''x'' tFloat2] tFloat False) = ''foo_ff2'' \<and>
   mangledName sampleTypes
     (make_FunctionDeclaration (sampleContext kGeneric True) 0 noModifiers ''foo''
        [sampleVar ''x'' tFloat2] tFloat True) = ''foo''"
  using mangledName_properties [of
      "make_FunctionDeclaration (sampleContext kGeneric False) 0 noModifiers ''foo''
        [sampleVar ''x'' tFloat3] tFloat False"
      "make_FunctionDeclaration (sampleContext kGeneric False) 0 noModifiers ''foo''
        [sampleVar ''x'' tFloat2] tFloat False" sampleTypes]
    mangledName_properties [of
      "make_FunctionDeclaration (sampleContext kGeneric True) 0 noModifiers ''foo''
        [sampleVar ''x'' tFloat2] tFloat True"
      "make_FunctionDeclaration (sampleContext kGeneric False) 0 noModifiers ''foo''
        [sampleVar ''x'' tFloat2] tFloat False" sampleTypes]
    sampleTypes_decodable
  by (simp add: mangledName_def make_FunctionDeclaration_def sampleTypes_def sampleVar_def)

text \<open>
  Claim C6 as stated fails for the functions that keep their name: the builtin overloads
  \<open>float sin(float)\<close> and \<open>float2 sin(float2)\<close>, declared without a body, differ in
  their parameter type and are both mangled to \<open>sin\<close>.
\<close>

theorem mangledName_builtin_counterexample:
  "map varType (fParameters
     (make_FunctionDeclaration (sampleContext kGeneric True) 0 noModifiers ''sin''
        [sampleVar ''x'' tFloat] tFloat True)) \<noteq>
   map varType (fParameters
     (make_FunctionDeclaration (sampleContext kGeneric True) 0 noModifiers ''sin''
        [sampleVar ''x'' tFloat2] tFloat2 True)) \<and>
   mangledName sampleTypes
     (make_FunctionDeclaration (sampleContext kGeneric True) 0 noModifiers ''sin''
        [sampleVar ''x'' tFloat] tFloat True) = ''sin'' \<and>
   mangledName sampleTypes
     (make_FunctionDeclaration (sampleContext kGeneric True) 0 noModifiers ''sin''
        [sampleVar ''x'' tFloat2] tFloat2 True) = ''sin''"
  by (simp add: mangledName_def make_FunctionDeclaration_def sampleVar_def)

subsection \<open>Overload resolution\<close>

lemma consistent_generic_index_types:
  "map varType ps = map varType ps' \<Longrightarrow>
   consistent_generic_index T ps qs g = consistent_generic_index T ps' qs g"
proof (induction qs arbitrary: ps ps' g)
  case Nil
  have "consistent_generic_index T xs [] g = Some g" for xs :: "'a Variable list"
    by (cases xs) simp_all
  then show ?case by simp
next
  case (Cons q qs)
  show ?case
  proof (cases ps)
    case Nil
    with Cons.prems show ?thesis by simp
  next
    case ps: (Cons p pst)
    with Cons.prems obtain p' pst' where ps': "ps' = p' # pst'" "varType p' = varType p"
      "map varType pst = map varType pst'" by (cases ps') auto
    from Cons.IH [OF ps'(3)] ps ps' show ?thesis by (simp add: Let_def)
  qed
qed

lemma parameter_check_types:
  "map varType ps = map varType ps' \<Longrightarrow>
   parameter_check T ps qs g = parameter_check T ps' qs g"
proof (induction qs arbitrary: ps ps')
  case Nil
  have "parameter_check T xs [] g" for xs :: "'a Variable list"
    by (cases xs) simp_all
  then show ?case by simp
next
  case (Cons q qs)
  show ?case
  proof (cases ps)
    case Nil
    with Cons.prems show ?thesis by simp
  next
    case ps: (Cons p pst)
    with Cons.prems obtain p' pst' where ps': "ps' = p' # pst'" "varType p' = varType p"
      "map varType pst = map varType pst'" by (cases ps') auto
    from Cons.IH [OF ps'(3)] ps ps' show ?thesis by auto
  qed
qed

lemma parameters_match_types:
  assumes "map varType ps = map varType ps'"
  shows "parameters_match T ps qs = parameters_match T ps' qs"
proof -
  from assms have "length ps = length ps'" by (metis length_map)
  with consistent_generic_index_types [OF assms] parameter_check_types [OF assms]
  show ?thesis by (simp add: parameters_match_def split: option.splits)
qed

lemma check_parameters_loop_types:
  "check_parameters_loop context isMain k ps = (ok, errs, ps', n) \<Longrightarrow>
   map varType ps' = map varType ps"
proof (induction ps arbitrary: k ok errs ps' n)
  case Nil
  then show ?case by simp
next
  case (Cons p ps)
  show ?case
  proof (cases "isEffectChild (fTypes context) (varType p) \<and> \<not> fIsBuiltinCode context")
    case True
    with Cons.prems show ?thesis by (simp add: Let_def)
  next
    case False
    obtain m ch k' where nm: "normalize_modifiers context isMain (varType p) (modifiers p) k = (m, ch, k')"
      by (cases "normalize_modifiers context isMain (varType p) (modifiers p) k")
    obtain ok0 e r n' where rec: "check_parameters_loop context isMain k' ps = (ok0, e, r, n')"
      by (cases "check_parameters_loop context isMain k' ps")
    have "ps' = (if ch then p\<lparr>modifiers := m\<rparr> else p) # r"
      using check_parameters_loop_step [OF False nm rec] Cons.prems by simp
    with Cons.IH [OF rec] show ?thesis by simp
  qed
qed

lemma check_parameters_types:
  "check_parameters context ps isMain = (ok, errs, ps') \<Longrightarrow> map varType ps' = map varType ps"
  by (auto simp: check_parameters_def split: prod.splits dest: check_parameters_loop_types)

lemma first_modifier_mismatch_None:
  "length ps = length qs \<Longrightarrow>
   first_modifier_mismatch ps qs i = None \<longleftrightarrow> map modifiers ps = map modifiers qs"
  by (induction ps qs arbitrary: i rule: list_induct2) auto

lemma find_in_chain_skip:
  "\<forall>d \<in> set pre. \<not> parameters_match (fTypes context) parameters (fParameters d) \<Longrightarrow>
   find_in_chain context pos name parameters returnTypePos returnType (pre @ rest) =
   find_in_chain context pos name parameters returnTypePos returnType rest"
  by (induction pre) auto

lemma find_in_chain_none:
  "find_in_chain context pos name parameters returnTypePos returnType chain = Inr None \<longleftrightarrow>
   (\<forall>d \<in> set chain. \<not> parameters_match (fTypes context) parameters (fParameters d))"
  by (induction chain) (auto split: option.splits)

lemma find_in_chain_some:
  "find_in_chain context pos name parameters returnTypePos returnType chain = Inr (Some d) \<Longrightarrow>
   d \<in> set chain \<and> parameters_match (fTypes context) parameters (fParameters d)"
  by (induction chain) (auto split: option.splits if_splits)

lemma parameters_match_length:
  "parameters_match T ps qs \<Longrightarrow> length ps = length qs"
  by (auto simp: parameters_match_def split: if_splits)

text \<open>What the walk decides at the first function whose parameter list matches.\<close>

lemma find_in_chain_first:
  assumes "\<forall>d \<in> set pre. \<not> parameters_match (fTypes context) parameters (fParameters d)"
    and "parameters_match (fTypes context) parameters (fParameters other)"
  shows "find_in_chain context pos name parameters returnTypePos returnType (pre @ other # post) =
     (if \<not> type_generically_matches (fTypes context) returnType (fReturnType other)
      then Inl (returnTypePos,
                ''functions '' @ sq @
                description (fTypes context)
                  (make_FunctionDeclaration context pos (fModifiers other) name parameters
                     returnType (fIsBuiltinCode context)) @ sq @
                '' and '' @ sq @ description (fTypes context) other @ sq @
                '' differ only in return type'')
      else case first_modifier_mismatch parameters (fParameters other) 0 of
             Some i \<Rightarrow>
               Inl (fPosition (parameters ! i),
                    ''modifiers on parameter '' @ to_string (i + 1) @
                    '' differ between declaration and definition'')
           | None \<Rightarrow>
               if fDefinition other \<or> isBuiltin other
               then Inl (pos, ''duplicate definition of '' @ description (fTypes context) other)
               else Inr (Some other))"
proof -
  have "find_in_chain context pos name parameters returnTypePos returnType (pre @ other # post) =
        find_in_chain context pos name parameters returnTypePos returnType (other # post)"
    by (rule find_in_chain_skip [OF assms(1)])
  also have "\<dots> = (if \<not> type_generically_matches (fTypes context) returnType (fReturnType other)
      then Inl (returnTypePos,
                ''functions '' @ sq @
                description (fTypes context)
                  (make_FunctionDeclaration context pos (fModifiers other) name parameters
                     returnType (fIsBuiltinCode context)) @ sq @
                '' and '' @ sq @ description (fTypes context) other @ sq @
                '' differ only in return type'')
      else case first_modifier_mismatch parameters (fParameters other) 0 of
             Some i \<Rightarrow>
               Inl (fPosition (parameters ! i),
                    ''modifiers on parameter '' @ to_string (i + 1) @
                    '' differ between declaration and definition'')
           | None \<Rightarrow>
               if fDefinition other \<or> isBuiltin other
               then Inl (pos, ''duplicate definition of '' @ description (fTypes context) other)
               else Inr (Some other))"
    using assms(2) by (simp add: Let_def del: to_string.simps)
  finally show ?thesis .
qed

text \<open>
  The three ways in which \<open>Convert\<close> ends, in terms of the parameters as
  \<open>check_parameters\<close> leaves them: rejection, a link to an existing function, or a
  new function.
\<close>

lemma Convert_cases:
  assumes cp: "check_parameters context parameters0 (name = ''main'') = (ok3, e3, parameters)"
    and cv: "Convert context symbols pos modifiersPos m name parameters0 returnTypePos returnType =
               (errs, r, symbols')"
  shows "(r = None \<and> symbols' = symbols) \<or>
     (\<exists>d. find_existing_declaration context symbols pos name parameters returnTypePos returnType =
            Inr (Some d) \<and>
          r = Some d \<and> symbols' = takeOwnershipOfSymbols symbols parameters) \<or>
     (find_existing_declaration context symbols pos name parameters returnTypePos returnType =
        Inr None \<and>
      r = Some (make_FunctionDeclaration context pos m name parameters returnType
                  (fIsBuiltinCode context)) \<and>
      symbols' = add (takeOwnershipOfSymbols symbols parameters)
                   (make_FunctionDeclaration context pos m name parameters returnType
                      (fIsBuiltinCode context)))"
proof -
  obtain ok1 e1 where c1: "check_modifiers context modifiersPos m = (ok1, e1)"
    by (cases "check_modifiers context modifiersPos m")
  obtain ok2 e2 where c2: "check_return_type context returnTypePos returnType = (ok2, e2)"
    by (cases "check_return_type context returnTypePos returnType")
  obtain ok4 e4 where c4: "(if name = ''main''
             then check_main_signature context pos returnType parameters
             else (True, [])) = (ok4, e4)"
    by (cases "if name = ''main'' then check_main_signature context pos returnType parameters
             else (True, [])")
  show ?thesis
  proof (cases "ok1 \<and> ok2 \<and> ok3 \<and> ok4")
    case False
    then consider "\<not> ok1" | "ok1" "\<not> ok2" | "ok1" "ok2" "\<not> ok3" | "ok1" "ok2" "ok3" "\<not> ok4"
      by blast
    then have "r = None \<and> symbols' = symbols"
    proof cases
      case 1 with cv c1 show ?thesis by (auto simp: Convert_def)
    next
      case 2 with cv c1 c2 show ?thesis by (auto simp: Convert_def)
    next
      case 3 with cv c1 c2 cp show ?thesis by (auto simp: Convert_def)
    next
      case 4 with cv c1 c2 cp c4 show ?thesis by (auto simp: Convert_def)
    qed
    then show ?thesis by blast
  next
    case True
    show ?thesis
    proof (cases "find_existing_declaration context symbols pos name parameters returnTypePos
                    returnType")
      case (Inl e)
      with True cv c1 c2 cp c4 have "r = None \<and> symbols' = symbols"
        by (auto simp: Convert_def)
      then show ?thesis by blast
    next
      case (Inr decl)
      show ?thesis
      proof (cases decl)
        case None
        with Inr True cv c1 c2 cp c4 show ?thesis by (auto simp: Convert_def Let_def)
      next
        case (Some d)
        with Inr True cv c1 c2 cp c4 show ?thesis by (auto simp: Convert_def Let_def)
      qed
    qed
  qed
qed

text \<open>
  Claim C4, as amended. Let \<open>other\<close> be the first function of the overload chain, in
  the order of the walk, whose parameter list the candidate's parameter list matches.
  If the candidate's return type does not generically match the return type of
  \<open>other\<close> (generic or not), \<open>find_existing_declaration\<close> fails with the diagnostic
  that the two functions differ only in return type, and \<open>Convert\<close> returns
  \<^verbatim>\<open>nullptr\<close> and leaves the symbol table as it was.
\<close>

theorem return_type_only_overload_rejected:
  assumes "fSymbols symbols name = Some (Functions (pre @ other # post))"
    and "\<forall>d \<in> set pre. \<not> parameters_match (fTypes context) parameters (fParameters d)"
    and "parameters_match (fTypes context) parameters (fParameters other)"
    and "\<not> type_generically_matches (fTypes context) returnType (fReturnType other)"
  shows "find_existing_declaration context symbols pos name parameters returnTypePos returnType =
           Inl (returnTypePos,
                ''functions '' @ sq @
                description (fTypes context)
                  (make_FunctionDeclaration context pos (fModifiers other) name parameters
                     returnType (fIsBuiltinCode context)) @ sq @
                '' and '' @ sq @ description (fTypes context) other @ sq @
                '' differ only in return type'') \<and>
         (\<forall>parameters0 ok3 e3 modifiersPos m errs r symbols'.
            check_parameters context parameters0 (name = ''main'') = (ok3, e3, parameters) \<and>
            Convert context symbols pos modifiersPos m name parameters0 returnTypePos returnType =
              (errs, r, symbols') \<longrightarrow>
            r = None \<and> symbols' = symbols)"
proof -
  have fe: "find_existing_declaration context symbols pos name parameters returnTypePos returnType =
           Inl (returnTypePos,
                ''functions '' @ sq @
                description (fTypes context)
                  (make_FunctionDeclaration context pos (fModifiers other) name parameters
                     returnType (fIsBuiltinCode context)) @ sq @
                '' and '' @ sq @ description (fTypes context) other @ sq @
                '' differ only in return type'')"
    using find_in_chain_first [OF assms(2,3), of pos name returnTypePos returnType post] assms(1,4)
    by (simp add: find_existing_declaration_def)
  have "r = None \<and> symbols' = symbols"
    if "check_parameters context parameters0 (name = ''main'') = (ok3, e3, parameters) \<and>
        Convert context symbols pos modifiersPos m name parameters0 returnTypePos returnType =
          (errs, r, symbols')"
    for parameters0 ok3 e3 modifiersPos m errs r symbols'
    using Convert_cases [of "context" parameters0 name ok3 e3 parameters symbols pos modifiersPos m
        returnTypePos returnType errs r symbols'] that fe
    by auto
  with fe show ?thesis by blast
qed

theorem return_type_only_overload_rejected_witness:
  "find_existing_declaration (sampleContext kGeneric False)
     (run [Declare (sampleCandidate kGeneric False tFloat ''foo'' [sampleVar ''x'' tFloat3]),
           Declare (sampleCandidate kGeneric False tFloat ''foo'' [sampleVar ''x'' tFloat2])])
     0 ''foo'' [sampleVar ''x'' tFloat3] 0 tInt =
   Inl (0, ''functions '' @ sq @ ''int foo(float3 x)'' @ sq @ '' and '' @ sq @
           ''float foo(float3 x)'' @ sq @ '' differ only in return type'')"
  using return_type_only_overload_rejected [of
      "run [Declare (sampleCandidate kGeneric False tFloat ''foo'' [sampleVar ''x'' tFloat3]),
            Declare (sampleCandidate kGeneric False tFloat ''foo'' [sampleVar ''x'' tFloat2])]"
      "''foo''" "[]"
      "make_FunctionDeclaration (sampleContext kGeneric False) 0 noModifiers ''foo''
          [sampleVar ''x'' tFloat3] tFloat False"
      "[make_FunctionDeclaration (sampleContext kGeneric False) 0 noModifiers ''foo''
          [sampleVar ''x'' tFloat2] tFloat False]"
      "sampleContext kGeneric False" "[sampleVar ''x'' tFloat3]" tInt 0 0]
  by (simp add: run_def ConvertCandidate_def sampleCandidate_def Convert_def
      check_modifiers_def check_return_type_def check_parameters_def checkPermitted_def
      normalize_modifiers_def find_existing_declaration_def parameters_match_def
      type_generically_matches_def description_def
      emptySymbolTable_def add_def takeOwnershipOfSymbols_def make_FunctionDeclaration_def
      sampleContext_def sampleTypes_def sampleVar_def noModifiers_def Let_def)

text \<open>
  Claim C4 as stated fails, because the walk stops at the first function whose parameter
  list matches. A builtin module declares \<open>float foo(float2 x)\<close> and then
  \<open>int foo($genType x)\<close>. The candidate \<open>float foo(float2 x)\<close> matches the parameter
  list of the second, whose return type \<open>int\<close> it does not match; but the walk stops at
  the first, and the diagnostic is that of a duplicate definition.
\<close>

theorem return_type_only_overload_counterexample:
  "chainOf (run [Declare (sampleCandidate kGeneric True tFloat ''foo'' [sampleVar ''x'' tFloat2]),
                 Declare (sampleCandidate kGeneric True tInt ''foo'' [sampleVar ''x'' tGenType])])
     ''foo'' =
     [make_FunctionDeclaration (sampleContext kGeneric True) 0 noModifiers ''foo''
        [sampleVar ''x'' tFloat2] tFloat True,
      make_FunctionDeclaration (sampleContext kGeneric True) 0 noModifiers ''foo''
        [sampleVar ''x'' tGenType] tInt True] \<and>
   parameters_match sampleTypes [sampleVar ''x'' tFloat2] [sampleVar ''x'' tGenType] \<and>
   \<not> type_generically_matches sampleTypes tFloat tInt \<and>
   find_existing_declaration (sampleContext kGeneric False)
     (run [Declare (sampleCandidate kGeneric True tFloat ''foo'' [sampleVar ''x'' tFloat2]),
           Declare (sampleCandidate kGeneric True tInt ''foo'' [sampleVar ''x'' tGenType])])
     0 ''foo'' [sampleVar ''x'' tFloat2] 0 tFloat =
   Inl (0, ''duplicate definition of float foo(float2 x)'')"
  by (simp add: run_def chainOf_def ConvertCandidate_def sampleCandidate_def Convert_def
      check_modifiers_def check_return_type_def check_parameters_def checkPermitted_def
      normalize_modifiers_def find_existing_declaration_def parameters_match_def
      type_generically_matches_def description_def find_generic_index_def identify_intrinsic_def
      emptySymbolTable_def add_def takeOwnershipOfSymbols_def make_FunctionDeclaration_def
      sampleContext_def sampleTypes_def sampleVar_def noModifiers_def Let_def)

text \<open>
  Claim C5, as amended. Let \<open>other\<close> be the first function of the overload chain, in
  the order of the walk, whose parameter list the candidate's parameter list matches, and
  let the candidate re-declare it in full: its return type generically matches and the
  modifiers of corresponding parameters are the same. Then \<open>find_existing_declaration\<close>
  fails with the diagnostic of a duplicate definition exactly when \<open>other\<close> has a body
  or is a builtin, and otherwise returns \<open>other\<close>. In either case \<open>Convert\<close> records
  no new function: the table binds every name as before, and the result is
  \<^verbatim>\<open>nullptr\<close> or, when \<open>other\<close> has no body and is no builtin, \<open>other\<close> itself.
\<close>

theorem duplicate_definition_rejected:
  assumes "fSymbols symbols name = Some (Functions (pre @ other # post))"
    and "\<forall>d \<in> set pre. \<not> parameters_match (fTypes context) parameters (fParameters d)"
    and "parameters_match (fTypes context) parameters (fParameters other)"
    and "type_generically_matches (fTypes context) returnType (fReturnType other)"
    and "map modifiers parameters = map modifiers (fParameters other)"
  shows "(fDefinition other \<or> isBuiltin other \<longrightarrow>
            find_existing_declaration context symbols pos name parameters returnTypePos returnType =
              Inl (pos, ''duplicate definition of '' @ description (fTypes context) other)) \<and>
         (\<not> (fDefinition other \<or> isBuiltin other) \<longrightarrow>
            find_existing_declaration context symbols pos name parameters returnTypePos returnType =
              Inr (Some other)) \<and>
         (\<forall>parameters0 ok3 e3 modifiersPos m errs r symbols'.
            check_parameters context parameters0 (name = ''main'') = (ok3, e3, parameters) \<and>
            Convert context symbols pos modifiersPos m name parameters0 returnTypePos returnType =
              (errs, r, symbols') \<longrightarrow>
            fSymbols symbols' = fSymbols symbols \<and>
            (r = None \<or> r = Some other \<and> \<not> (fDefinition other \<or> isBuiltin other)))"
proof -
  have len: "length parameters = length (fParameters other)"
    using assms(3) by (rule parameters_match_length)
  have mm: "first_modifier_mismatch parameters (fParameters other) 0 = None"
    using first_modifier_mismatch_None [OF len, of 0] assms(5) by simp
  have fe: "find_existing_declaration context symbols pos name parameters returnTypePos returnType =
     (if fDefinition other \<or> isBuiltin other
      then Inl (pos, ''duplicate definition of '' @ description (fTypes context) other)
      else Inr (Some other))"
    using find_in_chain_first [OF assms(2,3), of pos name returnTypePos returnType post]
      assms(1,4) mm
    by (simp add: find_existing_declaration_def)
  have cv: "fSymbols symbols' = fSymbols symbols \<and>
            (r = None \<or> r = Some other \<and> \<not> (fDefinition other \<or> isBuiltin other))"
    if "check_parameters context parameters0 (name = ''main'') = (ok3, e3, parameters) \<and>
        Convert context symbols pos modifiersPos m name parameters0 returnTypePos returnType =
          (errs, r, symbols')"
    for parameters0 ok3 e3 modifiersPos m errs r symbols'
    using Convert_cases [of "context" parameters0 name ok3 e3 parameters symbols pos modifiersPos m
        returnTypePos returnType errs r symbols'] that fe
    by (auto simp: takeOwnershipOfSymbols_def split: if_splits)
  from fe cv show ?thesis by simp
qed

theorem duplicate_definition_rejected_witness:
  "find_existing_declaration (sampleContext kGeneric False)
     (run [Declare (sampleCandidate kGeneric False tFloat ''foo'' [sampleVar ''x'' tFloat3]),
           AttachDefinition ''foo'' 0])
     0 ''foo'' [sampleVar ''x'' tFloat3] 0 tFloat =
     Inl (0, ''duplicate definition of float foo(float3 x)'') \<and>
   find_existing_declaration (sampleContext kGeneric False)
     (run [Declare (sampleCandidate kGeneric False tFloat ''foo'' [sampleVar ''x'' tFloat3])])
     0 ''foo'' [sampleVar ''x'' tFloat3] 0 tFloat =
     Inr (Some (make_FunctionDeclaration (sampleContext kGeneric False) 0 noModifiers ''foo''
                  [sampleVar ''x'' tFloat3] tFloat False))"
proof -
  define F where "F = make_FunctionDeclaration (sampleContext kGeneric False) 0 noModifiers ''foo''
                  [sampleVar ''x'' tFloat3] tFloat False"
  define C where "C = sampleContext kGeneric False"
  have t1: "fSymbols (run [Declare (sampleCandidate kGeneric False tFloat ''foo''
                                     [sampleVar ''x'' tFloat3])]) ''foo'' =
            Some (Functions ([] @ F # []))"
    by (simp add: F_def run_def ConvertCandidate_def sampleCandidate_def Convert_def
        check_modifiers_def check_return_type_def check_parameters_def checkPermitted_def
        normalize_modifiers_def find_existing_declaration_def
        emptySymbolTable_def add_def takeOwnershipOfSymbols_def make_FunctionDeclaration_def
        sampleContext_def sampleTypes_def sampleVar_def noModifiers_def Let_def)
  have t2: "fSymbols (run [Declare (sampleCandidate kGeneric False tFloat ''foo''
                                     [sampleVar ''x'' tFloat3]),
                           AttachDefinition ''foo'' 0]) ''foo'' =
            Some (Functions ([] @ F\<lparr>fDefinition := True\<rparr> # []))"
    by (simp add: F_def run_def ConvertCandidate_def sampleCandidate_def Convert_def
        setDefinition_def
        check_modifiers_def check_return_type_def check_parameters_def checkPermitted_def
        normalize_modifiers_def find_existing_declaration_def
        emptySymbolTable_def add_def takeOwnershipOfSymbols_def make_FunctionDeclaration_def
        sampleContext_def sampleTypes_def sampleVar_def noModifiers_def Let_def)
  have first: "\<forall>d \<in> set []. \<not> parameters_match (fTypes C) [sampleVar ''x'' tFloat3] (fParameters d)"
    by simp
  have pm: "parameters_match (fTypes C) [sampleVar ''x'' tFloat3] (fParameters F)"
    "parameters_match (fTypes C) [sampleVar ''x'' tFloat3] (fParameters (F\<lparr>fDefinition := True\<rparr>))"
    by (simp_all add: F_def C_def parameters_match_def make_FunctionDeclaration_def
        sampleContext_def sampleTypes_def sampleVar_def)
  have rt: "type_generically_matches (fTypes C) tFloat (fReturnType F)"
    "type_generically_matches (fTypes C) tFloat (fReturnType (F\<lparr>fDefinition := True\<rparr>))"
    by (simp_all add: F_def C_def type_generically_matches_def make_FunctionDeclaration_def
        sampleContext_def sampleTypes_def)
  have mods: "map modifiers [sampleVar ''x'' tFloat3] = map modifiers (fParameters F)"
    "map modifiers [sampleVar ''x'' tFloat3] = map modifiers (fParameters (F\<lparr>fDefinition := True\<rparr>))"
    by (simp_all add: F_def make_FunctionDeclaration_def)
  have dup: "fDefinition (F\<lparr>fDefinition := True\<rparr>) \<or> isBuiltin (F\<lparr>fDefinition := True\<rparr>)"
    by simp
  have nodup: "\<not> (fDefinition F \<or> isBuiltin F)"
    by (simp add: F_def make_FunctionDeclaration_def)
  have d1: "description (fTypes C) (F\<lparr>fDefinition := True\<rparr>) = ''float foo(float3 x)''"
    by (simp add: F_def C_def description_def make_FunctionDeclaration_def
        sampleContext_def sampleTypes_def sampleVar_def)
  have a: "find_existing_declaration C
     (run [Declare (sampleCandidate kGeneric False tFloat ''foo'' [sampleVar ''x'' tFloat3]),
           AttachDefinition ''foo'' 0])
     0 ''foo'' [sampleVar ''x'' tFloat3] 0 tFloat =
     Inl (0, ''duplicate definition of '' @ description (fTypes C) (F\<lparr>fDefinition := True\<rparr>))"
    using duplicate_definition_rejected [OF t2 first pm(2) rt(2) mods(2), where pos = 0
        and returnTypePos = 0] dup by blast
  have b: "find_existing_declaration C
     (run [Declare (sampleCandidate kGeneric False tFloat ''foo'' [sampleVar ''x'' tFloat3])])
     0 ''foo'' [sampleVar ''x'' tFloat3] 0 tFloat = Inr (Some F)"
    using duplicate_definition_rejected [OF t1 first pm(1) rt(1) mods(1), where pos = 0
        and returnTypePos = 0] nodup by blast
  from a b show ?thesis
    unfolding d1 unfolding C_def F_def by simp
qed

text \<open>
  Claim C5 as stated fails, for the same reason as claim C4. A builtin module declares
  \<open>int foo(float2 x)\<close> and then \<open>float foo($genType x)\<close>. The candidate
  \<open>float foo(float2 x)\<close> re-declares the second in full, and the second is a builtin;
  but the walk stops at the first, whose return type differs, and the diagnostic is not
  that of a duplicate definition.
\<close>

theorem duplicate_definition_counterexample:
  "chainOf (run [Declare (sampleCandidate kGeneric True tInt ''foo'' [sampleVar ''x'' tFloat2]),
                 Declare (sampleCandidate kGeneric True tFloat ''foo'' [sampleVar ''x'' tGenType])])
     ''foo'' =
     [make_FunctionDeclaration (sampleContext kGeneric True) 0 noModifiers ''foo''
        [sampleVar ''x'' tFloat2] tInt True,
      make_FunctionDeclaration (sampleContext kGeneric True) 0 noModifiers ''foo''
        [sampleVar ''x'' tGenType] tFloat True] \<and>
   parameters_match sampleTypes [sampleVar ''x'' tFloat2] [sampleVar ''x'' tGenType] \<and>
   type_generically_matches sampleTypes tFloat tFloat \<and>
   map modifiers [sampleVar ''x'' tFloat2] = map modifiers [sampleVar ''x'' tGenType] \<and>
   isBuiltin (make_FunctionDeclaration (sampleContext kGeneric True) 0 noModifiers ''foo''
        [sampleVar ''x'' tGenType] tFloat True) \<and>
   find_existing_declaration (sampleContext kGeneric False)
     (run [Declare (sampleCandidate kGeneric True tInt ''foo'' [sampleVar ''x'' tFloat2]),
           Declare (sampleCandidate kGeneric True tFloat ''foo'' [sampleVar ''x'' tGenType])])
     0 ''foo'' [sampleVar ''x'' tFloat2] 0 tFloat =
   Inl (0, ''functions '' @ sq @ ''float foo(float2 x)'' @ sq @ '' and '' @ sq @
           ''int foo(float2 x)'' @ sq @ '' differ only in return type'')"
  by (simp add: run_def chainOf_def ConvertCandidate_def sampleCandidate_def Convert_def
      check_modifiers_def check_return_type_def check_parameters_def checkPermitted_def
      normalize_modifiers_def find_existing_declaration_def parameters_match_def
      type_generically_matches_def description_def find_generic_index_def identify_intrinsic_def
      emptySymbolTable_def add_def takeOwnershipOfSymbols_def make_FunctionDeclaration_def
      sampleContext_def sampleTypes_def sampleVar_def noModifiers_def Let_def)

lemma chain_distinct_append:
  "chain_distinct T (ds @ [n]) \<longleftrightarrow>
   chain_distinct T ds \<and> (\<forall>d \<in> set ds. \<not> parameters_match T (fParameters n) (fParameters d))"
  by (induction ds) auto

lemma chain_distinct_params:
  "map fParameters ds = map fParameters ds' \<Longrightarrow> chain_distinct T ds = chain_distinct T ds'"
proof (induction ds arbitrary: ds')
  case Nil
  then show ?case by simp
next
  case (Cons d ds)
  then obtain d' ds'' where ds': "ds' = d' # ds''" "fParameters d' = fParameters d"
    "map fParameters ds = map fParameters ds''" by (cases ds') auto
  have "(\<forall>e \<in> set ds. \<not> parameters_match T (fParameters e) (fParameters d)) \<longleftrightarrow>
        (\<forall>ps \<in> set (map fParameters ds). \<not> parameters_match T ps (fParameters d))"
    by simp
  also have "\<dots> \<longleftrightarrow> (\<forall>ps \<in> set (map fParameters ds''). \<not> parameters_match T ps (fParameters d))"
    using ds'(3) by simp
  also have "\<dots> \<longleftrightarrow> (\<forall>e \<in> set ds''. \<not> parameters_match T (fParameters e) (fParameters d'))"
    using ds'(2) by simp
  finally show ?case using Cons.IH [OF ds'(3)] ds'(1) by simp
qed

lemma chain_distinct_nth:
  "chain_distinct T ds \<Longrightarrow> i < j \<Longrightarrow> j < length ds \<Longrightarrow>
   \<not> parameters_match T (fParameters (ds ! j)) (fParameters (ds ! i))"
proof (induction ds arbitrary: i j)
  case Nil
  then show ?case by simp
next
  case (Cons d ds)
  from Cons.prems(2) obtain j' where j: "j = Suc j'" by (cases j) auto
  show ?case
  proof (cases i)
    case 0
    from Cons.prems(3) j have "ds ! j' \<in> set ds" by simp
    with Cons.prems(1) 0 j show ?thesis by simp
  next
    case (Suc i')
    with Cons.prems j Cons.IH [of i' j'] show ?thesis by simp
  qed
qed

lemma chainOf_takeOwnershipOfSymbols [simp]:
  "chainOf (takeOwnershipOfSymbols symbols ps) n = chainOf symbols n"
  by (simp add: chainOf_def takeOwnershipOfSymbols_def)

lemma chainOf_add:
  "chainOf (add symbols decl) n =
     (if n = fName decl
      then (case fSymbols symbols n of
              None \<Rightarrow> [decl]
            | Some NonFunction \<Rightarrow> []
            | Some (Functions chain) \<Rightarrow> chain @ [decl])
      else chainOf symbols n)"
  by (auto simp: chainOf_def add_def split: option.splits Symbol.splits)

lemma map_update_same: "(map f xs)[i := f (xs ! i)] = map f xs"
  by (metis list_update_id map_update)

lemma chainOf_setDefinition:
  "map fParameters (chainOf (setDefinition symbols name i) n) = map fParameters (chainOf symbols n)"
  by (auto simp: chainOf_def setDefinition_def map_update map_update_same
      split: option.splits Symbol.splits)

lemma Convert_chain_distinct:
  assumes inv: "chain_distinct (fTypes context) (chainOf symbols n)"
    and cv: "Convert context symbols pos modifiersPos m name parameters0 returnTypePos returnType =
               (errs, r, symbols')"
  shows "chain_distinct (fTypes context) (chainOf symbols' n)"
proof -
  obtain ok3 e3 parameters where
    cp: "check_parameters context parameters0 (name = ''main'') = (ok3, e3, parameters)"
    by (cases "check_parameters context parameters0 (name = ''main'')")
  define new where "new = make_FunctionDeclaration context pos m name parameters returnType
                            (fIsBuiltinCode context)"
  from Convert_cases [OF cp cv]
  consider (rej) "symbols' = symbols"
    | (link) "symbols' = takeOwnershipOfSymbols symbols parameters"
    | (new) "find_existing_declaration context symbols pos name parameters returnTypePos
               returnType = Inr None"
        "symbols' = add (takeOwnershipOfSymbols symbols parameters) new"
    unfolding new_def by blast
  then show ?thesis
  proof cases
    case rej
    with inv show ?thesis by simp
  next
    case link
    with inv show ?thesis by simp
  next
    case new
    have nm: "fName new = name" "fParameters new = parameters"
      by (simp_all add: new_def make_FunctionDeclaration_def)
    have own: "fSymbols (takeOwnershipOfSymbols symbols parameters) = fSymbols symbols"
      by (simp add: takeOwnershipOfSymbols_def)
    show ?thesis
    proof (cases "n = name")
      case False
      with new(2) nm inv show ?thesis by (simp add: chainOf_add)
    next
      case True
      show ?thesis
      proof (cases "fSymbols symbols name")
        case None
        with True new(2) nm own show ?thesis by (simp add: chainOf_add)
      next
        case (Some sym)
        show ?thesis
        proof (cases sym)
          case NonFunction
          with Some True new(2) nm own show ?thesis by (simp add: chainOf_add)
        next
          case (Functions chain)
          with Some new(1) have "find_in_chain context pos name parameters returnTypePos
                                   returnType chain = Inr None"
            by (simp add: find_existing_declaration_def)
          then have none: "\<forall>d \<in> set chain.
              \<not> parameters_match (fTypes context) parameters (fParameters d)"
            by (simp add: find_in_chain_none)
          from inv True Some Functions have "chain_distinct (fTypes context) chain"
            by (simp add: chainOf_def)
          with none nm have "chain_distinct (fTypes context) (chain @ [new])"
            by (simp add: chain_distinct_append)
          with Some Functions True new(2) nm own show ?thesis by (simp add: chainOf_add)
        qed
      qed
    qed
  qed
qed

lemma step_chain_distinct:
  assumes "chain_distinct T (chainOf symbols n)"
    and "\<forall>c. s = Declare c \<longrightarrow> fTypes (cContext c) = T"
  shows "chain_distinct T (chainOf (step symbols s) n)"
proof (cases s)
  case (Declare c)
  obtain errs r symbols' where cv: "ConvertCandidate symbols c = (errs, r, symbols')"
    by (cases "ConvertCandidate symbols c")
  from assms(2) Declare have T: "fTypes (cContext c) = T" by simp
  from cv have "Convert (cContext c) symbols (cPos c) (cModifiersPos c) (cModifiers c) (cName c)
       (cParameters c) (cReturnTypePos c) (cReturnType c) = (errs, r, symbols')"
    by (simp add: ConvertCandidate_def)
  from Convert_chain_distinct [OF _ this, of n] assms(1) T
  have "chain_distinct T (chainOf symbols' n)" by simp
  with Declare cv show ?thesis by simp
next
  case (AttachDefinition name i)
  have "chain_distinct T (chainOf (setDefinition symbols name i) n) =
        chain_distinct T (chainOf symbols n)"
    by (rule chain_distinct_params) (rule chainOf_setDefinition)
  with assms(1) AttachDefinition show ?thesis by simp
qed

lemma foldl_step_chain_distinct:
  "chain_distinct T (chainOf symbols n) \<Longrightarrow>
   \<forall>c. Declare c \<in> set steps \<longrightarrow> fTypes (cContext c) = T \<Longrightarrow>
   chain_distinct T (chainOf (foldl step symbols steps) n)"
proof (induction steps arbitrary: symbols)
  case Nil
  then show ?case by simp
next
  case (Cons s steps)
  have "chain_distinct T (chainOf (step symbols s) n)"
    using Cons.prems by (intro step_chain_distinct) auto
  from Cons.IH [OF this] Cons.prems(2) show ?case by simp
qed

lemma run_chain_distinct:
  "\<forall>c. Declare c \<in> set steps \<longrightarrow> fTypes (cContext c) = T \<Longrightarrow>
   chain_distinct T (chainOf (run steps) n)"
  unfolding run_def
  by (rule foldl_step_chain_distinct) (simp_all add: chainOf_def emptySymbolTable_def)

lemma zip_map_eq:
  "map f ps = map f qs \<Longrightarrow> (p, q) \<in> set (zip ps qs) \<Longrightarrow> f p = f q"
proof (induction ps arbitrary: qs)
  case Nil
  then show ?case by simp
next
  case (Cons a ps)
  then show ?case by (cases qs) auto
qed

lemma parameters_match_same_types:
  assumes "\<forall>t. matches T t t"
    and "\<forall>q \<in> set qs. \<not> isGeneric T (varType q)"
    and "map varType ps = map varType qs"
  shows "parameters_match T ps qs"
proof -
  have len: "length ps = length qs" using assms(3) by (metis length_map)
  have "\<forall>(p, q) \<in> set (zip ps qs).
         if isGeneric T (varType q)
         then find_generic_index T (varType p) (varType q) False = 0 \<and> (0::int) \<noteq> - 1 \<and>
              matches T (varType p) (coercibleTypes T (varType q) ! nat 0)
         else matches T (varType p) (varType q)"
  proof (clarify)
    fix p q assume pq: "(p, q) \<in> set (zip ps qs)"
    then have "q \<in> set qs" by (meson set_zip_rightD)
    with assms(2) have ng: "\<not> isGeneric T (varType q)" by blast
    from zip_map_eq [OF assms(3) pq] have "varType p = varType q" .
    with ng assms(1) show "if isGeneric T (varType q)
         then find_generic_index T (varType p) (varType q) False = 0 \<and> (0::int) \<noteq> - 1 \<and>
              matches T (varType p) (coercibleTypes T (varType q) ! nat 0)
         else matches T (varType p) (varType q)" by simp
  qed
  with len show ?thesis unfolding parameters_match_iff by blast
qed

text \<open>
  Claim C1, as amended. Let one scope be built from the empty table by any sequence of
  declarations and attachments of bodies, over one type system. Of two functions recorded
  under one name, the parameter list of the later never matches the parameter list of the
  earlier in the sense of \<open>parameters_match\<close> (the later types against the earlier
  ones, generic types of the earlier resolved at one index). In particular, when every
  type matches itself, the later function never has the same parameter types as an
  earlier function without generic parameters, whatever the return types. And a
  candidate whose parameter list matches that of a recorded function of its name is
  never recorded: \<open>Convert\<close> leaves every binding of the table as it was and returns
  \<^verbatim>\<open>nullptr\<close> or one of the recorded functions.
\<close>

theorem overload_chain_distinct:
  assumes "\<forall>c. Declare c \<in> set steps \<longrightarrow> fTypes (cContext c) = T"
  shows "(\<forall>i j. i < j \<and> j < length (chainOf (run steps) name) \<longrightarrow>
            \<not> parameters_match T (fParameters (chainOf (run steps) name ! j))
                 (fParameters (chainOf (run steps) name ! i))) \<and>
         ((\<forall>t. matches T t t) \<longrightarrow>
            (\<forall>i j. i < j \<and> j < length (chainOf (run steps) name) \<and>
                (\<forall>p \<in> set (fParameters (chainOf (run steps) name ! i)).
                    \<not> isGeneric T (varType p)) \<longrightarrow>
                map varType (fParameters (chainOf (run steps) name ! j)) \<noteq>
                map varType (fParameters (chainOf (run steps) name ! i)))) \<and>
         (\<forall>c errs r symbols'.
            fTypes (cContext c) = T \<and> cName c = name \<and>
            (\<exists>d \<in> set (chainOf (run steps) name).
                parameters_match T (cParameters c) (fParameters d)) \<and>
            ConvertCandidate (run steps) c = (errs, r, symbols') \<longrightarrow>
            fSymbols symbols' = fSymbols (run steps) \<and>
            (r = None \<or> (\<exists>d \<in> set (chainOf (run steps) name). r = Some d)))"
proof (intro conjI)
  define chain where "chain = chainOf (run steps) name"
  have inv: "chain_distinct T chain"
    unfolding chain_def by (rule run_chain_distinct [OF assms])
  show "\<forall>i j. i < j \<and> j < length (chainOf (run steps) name) \<longrightarrow>
            \<not> parameters_match T (fParameters (chainOf (run steps) name ! j))
                 (fParameters (chainOf (run steps) name ! i))"
    using chain_distinct_nth [OF inv] unfolding chain_def by blast
  show "(\<forall>t. matches T t t) \<longrightarrow>
            (\<forall>i j. i < j \<and> j < length (chainOf (run steps) name) \<and>
                (\<forall>p \<in> set (fParameters (chainOf (run steps) name ! i)).
                    \<not> isGeneric T (varType p)) \<longrightarrow>
                map varType (fParameters (chainOf (run steps) name ! j)) \<noteq>
                map varType (fParameters (chainOf (run steps) name ! i)))"
  proof (intro impI allI notI)
    fix i j
    assume refl: "\<forall>t. matches T t t"
      and ij: "i < j \<and> j < length (chainOf (run steps) name) \<and>
                (\<forall>p \<in> set (fParameters (chainOf (run steps) name ! i)).
                    \<not> isGeneric T (varType p))"
      and eq: "map varType (fParameters (chainOf (run steps) name ! j)) =
               map varType (fParameters (chainOf (run steps) name ! i))"
    from ij have ng: "\<forall>q \<in> set (fParameters (chain ! i)). \<not> isGeneric T (varType q)"
      by (simp add: chain_def)
    from parameters_match_same_types [OF refl ng] eq
    have "parameters_match T (fParameters (chain ! j)) (fParameters (chain ! i))"
      by (simp add: chain_def)
    moreover from ij have "i < j" "j < length chain" by (simp_all add: chain_def)
    ultimately show False using chain_distinct_nth [OF inv] by blast
  qed
  show "\<forall>c errs r symbols'.
            fTypes (cContext c) = T \<and> cName c = name \<and>
            (\<exists>d \<in> set (chainOf (run steps) name).
                parameters_match T (cParameters c) (fParameters d)) \<and>
            ConvertCandidate (run steps) c = (errs, r, symbols') \<longrightarrow>
            fSymbols symbols' = fSymbols (run steps) \<and>
            (r = None \<or> (\<exists>d \<in> set (chainOf (run steps) name). r = Some d))"
  proof (intro allI impI)
    fix c errs r symbols'
    assume a: "fTypes (cContext c) = T \<and> cName c = name \<and>
            (\<exists>d \<in> set (chainOf (run steps) name).
                parameters_match T (cParameters c) (fParameters d)) \<and>
            ConvertCandidate (run steps) c = (errs, r, symbols')"
    define symbols where "symbols = run steps"
    obtain ok3 e3 parameters where
      cp: "check_parameters (cContext c) (cParameters c) (cName c = ''main'') =
             (ok3, e3, parameters)"
      by (cases "check_parameters (cContext c) (cParameters c) (cName c = ''main'')")
    from a obtain d where d: "d \<in> set chain" "parameters_match T (cParameters c) (fParameters d)"
      by (auto simp: chain_def)
    have ch: "fSymbols symbols name = Some (Functions chain)"
    proof (cases "fSymbols symbols name")
      case None
      then have "chain = []" by (simp add: chain_def chainOf_def symbols_def)
      with d(1) show ?thesis by simp
    next
      case (Some sym)
      show ?thesis
      proof (cases sym)
        case NonFunction
        with Some have "chain = []" by (simp add: chain_def chainOf_def symbols_def)
        with d(1) show ?thesis by simp
      next
        case (Functions x)
        with Some have "chain = x" by (simp add: chain_def chainOf_def symbols_def)
        with Some Functions show ?thesis by simp
      qed
    qed
    have "parameters_match T parameters (fParameters d)"
      using parameters_match_types [OF check_parameters_types [OF cp], of T "fParameters d"] d(2)
      by simp
    with d(1) ch a have notnone: "find_existing_declaration (cContext c) symbols (cPos c) (cName c)
        parameters (cReturnTypePos c) (cReturnType c) \<noteq> Inr None"
      by (auto simp: find_existing_declaration_def find_in_chain_none)
    have some: "d' \<in> set chain"
      if "find_existing_declaration (cContext c) symbols (cPos c) (cName c)
        parameters (cReturnTypePos c) (cReturnType c) = Inr (Some d')" for d'
      using that ch a
      by (auto simp: find_existing_declaration_def dest: find_in_chain_some)
    from a have "ConvertCandidate (run steps) c = (errs, r, symbols')" by blast
    then have cv: "Convert (cContext c) symbols (cPos c) (cModifiersPos c) (cModifiers c)
        (cName c) (cParameters c) (cReturnTypePos c) (cReturnType c) = (errs, r, symbols')"
      unfolding ConvertCandidate_def symbols_def .
    from Convert_cases [OF cp cv] notnone some
    have "fSymbols symbols' = fSymbols symbols \<and> (r = None \<or> (\<exists>d \<in> set chain. r = Some d))"
      by (auto simp: takeOwnershipOfSymbols_def)
    then show "fSymbols symbols' = fSymbols (run steps) \<and>
            (r = None \<or> (\<exists>d \<in> set (chainOf (run steps) name). r = Some d))"
      by (simp add: symbols_def chain_def)
  qed
qed


theorem overload_chain_distinct_witness:
  "chainOf (run [Declare (sampleCandidate kGeneric False tFloat ''foo'' [sampleVar ''x'' tFloat3]),
                 Declare (sampleCandidate kGeneric False tFloat ''foo'' [sampleVar ''x'' tFloat2]),
                 Declare (sampleCandidate kGeneric False tFloat ''foo'' [sampleVar ''y'' tFloat3])])
     ''foo'' =
     [make_FunctionDeclaration (sampleContext kGeneric False) 0 noModifiers ''foo''
        [sampleVar ''x'' tFloat3] tFloat False,
      make_FunctionDeclaration (sampleContext kGeneric False) 0 noModifiers ''foo''
        [sampleVar ''x'' tFloat2] tFloat False] \<and>
   \<not> parameters_match sampleTypes [sampleVar ''x'' tFloat2] [sampleVar ''x'' tFloat3]"
proof -
  define steps where "steps =
    [Declare (sampleCandidate kGeneric False tFloat ''foo'' [sampleVar ''x'' tFloat3]),
     Declare (sampleCandidate kGeneric False tFloat ''foo'' [sampleVar ''x'' tFloat2]),
     Declare (sampleCandidate kGeneric False tFloat ''foo'' [sampleVar ''y'' tFloat3])]"
  have T: "\<forall>c. Declare c \<in> set steps \<longrightarrow> fTypes (cContext c) = sampleTypes"
  proof (intro allI impI)
    fix c assume "Declare c \<in> set steps"
    then consider "c = sampleCandidate kGeneric False tFloat ''foo'' [sampleVar ''x'' tFloat3]"
      | "c = sampleCandidate kGeneric False tFloat ''foo'' [sampleVar ''x'' tFloat2]"
      | "c = sampleCandidate kGeneric False tFloat ''foo'' [sampleVar ''y'' tFloat3]"
      unfolding steps_def by auto
    then show "fTypes (cContext c) = sampleTypes"
      by cases (simp_all add: sampleCandidate_def sampleContext_def)
  qed
  have ch: "chainOf (run steps) ''foo'' =
     [make_FunctionDeclaration (sampleContext kGeneric False) 0 noModifiers ''foo''
        [sampleVar ''x'' tFloat3] tFloat False,
      make_FunctionDeclaration (sampleContext kGeneric False) 0 noModifiers ''foo''
        [sampleVar ''x'' tFloat2] tFloat False]"
    by (simp add: steps_def run_def chainOf_def ConvertCandidate_def sampleCandidate_def
        Convert_def check_modifiers_def check_return_type_def check_parameters_def
        checkPermitted_def normalize_modifiers_def find_existing_declaration_def
        parameters_match_def type_generically_matches_def
        emptySymbolTable_def add_def takeOwnershipOfSymbols_def make_FunctionDeclaration_def
        sampleContext_def sampleTypes_def sampleVar_def noModifiers_def Let_def)
  have ij: "(0::nat) < 1 \<and> 1 < length (chainOf (run steps) ''foo'')"
    by (simp add: ch)
  have "\<not> parameters_match sampleTypes (fParameters (chainOf (run steps) ''foo'' ! 1))
           (fParameters (chainOf (run steps) ''foo'' ! 0))"
    by (rule overload_chain_distinct [OF T, of "''foo''", THEN conjunct1, rule_format, OF ij])
  then have "\<not> parameters_match sampleTypes [sampleVar ''x'' tFloat2] [sampleVar ''x'' tFloat3]"
    by (simp add: ch make_FunctionDeclaration_def)
  with ch show ?thesis by (simp add: steps_def)
qed

text \<open>
  Claim C1 as stated fails for functions with generic parameters: a parameter list with
  a generic type does not match itself, because the candidate's generic type coerces to
  no member of the family. A builtin module that declares \<open>$genType foo($genType x)\<close>
  twice gets two records with the same parameter types and the same return type.
\<close>

theorem overload_chain_generic_counterexample:
  "chainOf (run [Declare (sampleCandidate kGeneric True tGenType ''foo'' [sampleVar ''x'' tGenType]),
                 Declare (sampleCandidate kGeneric True tGenType ''foo'' [sampleVar ''x'' tGenType])])
     ''foo'' =
     [make_FunctionDeclaration (sampleContext kGeneric True) 0 noModifiers ''foo''
        [sampleVar ''x'' tGenType] tGenType True,
      make_FunctionDeclaration (sampleContext kGeneric True) 0 noModifiers ''foo''
        [sampleVar ''x'' tGenType] tGenType True]"
  by (simp add: run_def chainOf_def ConvertCandidate_def sampleCandidate_def
      Convert_def check_modifiers_def check_return_type_def check_parameters_def
      checkPermitted_def normalize_modifiers_def find_existing_declaration_def
      parameters_match_def find_generic_index_def identify_intrinsic_def
      emptySymbolTable_def add_def takeOwnershipOfSymbols_def make_FunctionDeclaration_def
      sampleContext_def sampleTypes_def sampleVar_def noModifiers_def Let_def)

end
